theory Spec2Isabelle
  imports Complex_Main "HOL-Library.Log_Nat"
begin

section \<open>JavaScript values used by the withdrawal routes\<close>

subsection \<open>Numbers\<close>

text \<open>
  A JavaScript number is an IEEE-754 binary64 value. \<open>Fin r\<close> carries the exact rational
  value of a finite double. The sign of zero is not kept: no operation of the routes
  (\<open>!amount\<close>, \<open><\<close>, \<open>*\<close>, \<open>-\<close>, \<open>+\<close>, \<open>Math.floor\<close>) tells \<open>-0\<close> from \<open>+0\<close>.
\<close>

datatype jsnum = NaN | PInf | NInf | Fin rat

text \<open>\<open>ilog2 x\<close> is the binary exponent of \<open>x \<noteq> 0\<close>: \<open>2 powi ilog2 x \<le> \<bar>x\<bar> < 2 powi (ilog2 x + 1)\<close>.\<close>

definition ilog2 :: "rat \<Rightarrow> int" where
  "ilog2 x = (let (p, q) = quotient_of \<bar>x\<bar>; k = bitlen p - bitlen q
              in if 2 powi k \<le> \<bar>x\<bar> then k else k - 1)"

text \<open>Rounding to the nearest integer, ties to even.\<close>

definition rne :: "rat \<Rightarrow> int" where
  "rne x = (let f = \<lfloor>x\<rfloor>; d = x - of_int f
            in if d < 1 / 2 then f else if 1 / 2 < d then f + 1
               else if even f then f else f + 1)"

text \<open>
  The magnitude of \<open>x\<close> rounded to 53 significant bits (to the spacing \<open>2 powi (- 1074)\<close> in
  the subnormal range), before the overflow test.
\<close>

definition round_mag :: "rat \<Rightarrow> rat" where
  "round_mag x = (let e = max (ilog2 x - 52) (- 1074)
                  in of_int (rne (\<bar>x\<bar> / 2 powi e)) * 2 powi e)"

text \<open>
  The double that an exact result \<open>x\<close> is rounded to (round to nearest, ties to even);
  a rounded magnitude of \<open>2 powi 1024\<close> or more overflows to an infinity.
\<close>

definition round_double :: "rat \<Rightarrow> jsnum" where
  "round_double x =
     (if x = 0 then Fin 0
      else let y = round_mag x
           in if 2 powi 1024 \<le> y then (if x < 0 then NInf else PInf)
              else Fin (sgn x * y))"

definition is_double :: "rat \<Rightarrow> bool" where
  "is_double r = (round_double r = Fin r)"

definition js_isNaN :: "jsnum \<Rightarrow> bool" where
  "js_isNaN n = (n = NaN)"

text \<open>Truthiness of a number: \<open>!n\<close> holds for zero and for \<open>NaN\<close>.\<close>

definition js_truthy :: "jsnum \<Rightarrow> bool" where
  "js_truthy n = (n \<noteq> NaN \<and> n \<noteq> Fin 0)"

fun js_lt :: "jsnum \<Rightarrow> jsnum \<Rightarrow> bool" where
  "js_lt NaN b = False"
| "js_lt a NaN = False"
| "js_lt (Fin a) (Fin b) = (a < b)"
| "js_lt (Fin a) PInf = True"
| "js_lt (Fin a) NInf = False"
| "js_lt NInf NInf = False"
| "js_lt NInf b = True"
| "js_lt PInf b = False"

fun js_neg :: "jsnum \<Rightarrow> jsnum" where
  "js_neg NaN = NaN"
| "js_neg PInf = NInf"
| "js_neg NInf = PInf"
| "js_neg (Fin a) = Fin (- a)"

fun js_add :: "jsnum \<Rightarrow> jsnum \<Rightarrow> jsnum" where
  "js_add NaN b = NaN"
| "js_add a NaN = NaN"
| "js_add (Fin a) (Fin b) = round_double (a + b)"
| "js_add PInf NInf = NaN"
| "js_add NInf PInf = NaN"
| "js_add PInf b = PInf"
| "js_add NInf b = NInf"
| "js_add (Fin a) b = b"

definition js_sub :: "jsnum \<Rightarrow> jsnum \<Rightarrow> jsnum" where
  "js_sub a b = js_add a (js_neg b)"

fun js_mul :: "jsnum \<Rightarrow> jsnum \<Rightarrow> jsnum" where
  "js_mul NaN b = NaN"
| "js_mul a NaN = NaN"
| "js_mul (Fin a) (Fin b) = round_double (a * b)"
| "js_mul (Fin a) b = (if a = 0 then NaN else if 0 < a then b else js_neg b)"
| "js_mul a (Fin b) = (if b = 0 then NaN else if 0 < b then a else js_neg a)"
| "js_mul a b = (if a = b then PInf else NInf)"

fun js_floor :: "jsnum \<Rightarrow> jsnum" where
  "js_floor (Fin a) = Fin (of_int \<lfloor>a\<rfloor>)"
| "js_floor a = a"

text \<open>\<open>n || 0\<close> for a number field that may be absent.\<close>

definition num_or_zero :: "jsnum option \<Rightarrow> jsnum" where
  "num_or_zero v = (case v of None \<Rightarrow> Fin 0 | Some n \<Rightarrow> if js_truthy n then n else Fin 0)"

subsection \<open>Strings\<close>

text \<open>
  A JavaScript string is a sequence of UTF-16 code units. A field that is absent
  (\<open>undefined\<close>) is \<open>None\<close>.
\<close>

type_synonym jsstring = "nat list"

definition ascii :: "string \<Rightarrow> jsstring" where
  "ascii s = map of_char s"

text \<open>The code units that \<open>String.prototype.trim\<close> strips: white space and line terminators.\<close>

definition is_js_space :: "nat \<Rightarrow> bool" where
  "is_js_space c =
     (c \<in> {0x09, 0x0A, 0x0B, 0x0C, 0x0D, 0x20, 0xA0, 0x1680, 0x2028, 0x2029, 0x202F,
            0x205F, 0x3000, 0xFEFF}
      \<or> (0x2000 \<le> c \<and> c \<le> 0x200A))"

definition trim :: "jsstring \<Rightarrow> jsstring" where
  "trim s = rev (dropWhile is_js_space (rev (dropWhile is_js_space s)))"

definition str_truthy :: "jsstring option \<Rightarrow> bool" where
  "str_truthy v = (case v of None \<Rightarrow> False | Some s \<Rightarrow> s \<noteq> [])"

text \<open>\<open>a || b\<close> on two optional strings, and \<open>v || ""\<close>.\<close>

definition or_str :: "jsstring option \<Rightarrow> jsstring option \<Rightarrow> jsstring option" where
  "or_str a b = (if str_truthy a then a else b)"

definition str_or_empty :: "jsstring option \<Rightarrow> jsstring" where
  "str_or_empty v = (case v of None \<Rightarrow> [] | Some s \<Rightarrow> s)"

section \<open>The documents of the two collections\<close>

text \<open>
  The Mongoose schemas \<open>models/User\<close> and \<open>models/Withdrawal\<close> are not part of the
  source. The records below hold the fields that the routes read and write, with the types
  of the spec's data model. Dates are instants in milliseconds since the epoch; a status is
  an ASCII word.
\<close>

text \<open>
  Modelled from the spec: the schema of the embedded withdrawal summaries (in
  \<open>models/User\<close>) is missing. An entry of the \<open>withdrawals\<close> array of a user document, with
  the four fields that line 86 pushes.
\<close>

record summary =
  s_amount :: jsnum
  s_phone :: jsstring
  s_date :: int
  s_status :: string

text \<open>
  Modelled from the spec: the schema \<open>models/User\<close> is missing. A user document has a
  wallet balance, a cumulative cashouts total and an optional embedded list of withdrawal
  summaries. \<open>cashouts\<close> and \<open>withdrawals\<close> may be absent (\<open>None\<close>): the route reads them
  as \<open>user.cashouts || 0\<close> and under \<open>Array.isArray(user.withdrawals)\<close>. Every other field
  of the document is the extension part of the record.
\<close>

record user =
  wallet :: jsnum
  cashouts :: "jsnum option"
  withdrawals :: "summary list option"

text \<open>
  Modelled from the spec: the schema \<open>models/Withdrawal\<close> is missing. A withdrawal record
  has an identifier, its owner, the gross amount, the net amount, the payout number, a
  status and its creation time. \<open>w_amountAfterTax\<close> is absent in a document written before
  the net amount was stored (the listing reads \<open>w.amountAfterTax ?? w.amount\<close>).
\<close>

record withdrawal =
  w_id :: jsstring
  w_user :: jsstring
  w_amount :: jsnum
  w_amountAfterTax :: "jsnum option"
  w_mpesaNumber :: jsstring
  w_status :: string
  w_date :: int

text \<open>The two collections: the users by identifier, and the withdrawal documents.\<close>

record 'u db =
  Users :: "jsstring \<rightharpoonup> 'u"
  Withdrawals :: "withdrawal list"

text \<open>A user document with two more fields, as the admin listing selects them.\<close>

record profile = user +
  fullName :: jsstring
  email :: jsstring

section \<open>The environment of a request\<close>

text \<open>
  The calls to the store. Each one is awaited inside the handler's \<open>try\<close> block: it
  either returns or throws, and a throw ends the request with the response of the
  \<open>catch\<close> block.
\<close>

datatype db_call = FindUser | SaveUser | FindWithdrawals | SaveWithdrawal

text \<open>
  \<open>instant\<close> is the moment \<open>moment()\<close> captures, in milliseconds since the epoch;
  \<open>process_utc_offset\<close> is the time zone of the server process, in minutes, which the
  handlers never read; \<open>new_id\<close> is the identifier the driver gives the next new
  document; \<open>failing\<close> holds the store calls that throw during this request.
\<close>

record env =
  instant :: int
  process_utc_offset :: int
  new_id :: jsstring
  failing :: "db_call set"

text \<open>
  Modelled from the spec: the time zone rule that moment-timezone applies for
  \<open>Africa/Nairobi\<close> is not part of the source; the spec gives it as UTC+3 with no daylight
  saving. \<open>nairobi_hour t\<close> is \<open>moment().tz("Africa/Nairobi").hour()\<close> at the instant \<open>t\<close>.
\<close>

definition nairobi_hour :: "int \<Rightarrow> int" where
  "nairobi_hour t = (t div 3600000 + 3) mod 24"

datatype 'a outcome = Threw | Returned 'a

definition findById :: "env \<Rightarrow> 'u db \<Rightarrow> jsstring \<Rightarrow> 'u option outcome" where
  "findById ev d uid = (if FindUser \<in> failing ev then Threw else Returned (Users d uid))"

definition save_user :: "env \<Rightarrow> 'u db \<Rightarrow> jsstring \<Rightarrow> 'u \<Rightarrow> 'u db outcome" where
  "save_user ev d uid u =
     (if SaveUser \<in> failing ev then Threw else Returned (d\<lparr>Users := (Users d)(uid \<mapsto> u)\<rparr>))"

definition save_withdrawal :: "env \<Rightarrow> 'u db \<Rightarrow> withdrawal \<Rightarrow> 'u db outcome" where
  "save_withdrawal ev d w =
     (if SaveWithdrawal \<in> failing ev then Threw
      else Returned (d\<lparr>Withdrawals := Withdrawals d @ [w]\<rparr>))"

text \<open>
  \<open>Withdrawal.find({ user: userId }).sort({ date: -1 })\<close>: the documents of the user,
  newest first (documents of equal date keep their order in the collection).
\<close>

definition find_withdrawals :: "env \<Rightarrow> 'u db \<Rightarrow> jsstring \<Rightarrow> withdrawal list outcome" where
  "find_withdrawals ev d uid =
     (if FindWithdrawals \<in> failing ev then Threw
      else Returned (sort_key (\<lambda>w. - w_date w) (filter (\<lambda>w. w_user w = uid) (Withdrawals d))))"

section \<open>Responses\<close>

text \<open>An entry of the history that the listing route builds from a withdrawal document.\<close>

record history_entry =
  h_id :: jsstring
  h_amount :: jsnum
  h_status :: string
  h_date :: int
  h_phone :: jsstring

text \<open>
  The JSON body next to the \<open>success\<close> flag: a fixed message, the message of an accepted
  submission (the template text with \<open>netAmount.toFixed(2)\<close> in it, kept as the number), the
  embedded list of a user returned as it is, or the mapped history.
\<close>

datatype payload =
  Message jsstring
| Submitted jsnum
| EmbeddedHistory "summary list"
| MappedHistory "history_entry list"

record reply =
  status :: nat
  success :: bool
  body :: payload

definition failure :: "nat \<Rightarrow> jsstring \<Rightarrow> reply" where
  "failure code msg = \<lparr>status = code, success = False, body = Message msg\<rparr>"

definition MissingFields :: reply where
  "MissingFields =
     failure 400 (0x2757 # ascii '' All fields (userId, amount, phone) are required.'')"

definition BelowMinimum :: reply where
  "BelowMinimum = failure 400 (ascii ''Minimum withdrawal is Ksh 200.'')"

definition OutsideBusinessHours :: reply where
  "OutsideBusinessHours = failure 400 (ascii ''Withdrawals are allowed from 9AM to 5PM only.'')"

definition AccountNotFound :: reply where
  "AccountNotFound = failure 404 (0x274C # ascii '' User not found.'')"

definition InsufficientBalance :: reply where
  "InsufficientBalance = failure 400 (0x274C # ascii '' Insufficient wallet balance.'')"

definition InternalError :: reply where
  "InternalError = failure 500 (0xD83D # 0xDEAB # ascii '' Internal server error.'')"

definition MissingUserId :: reply where
  "MissingUserId = failure 400 (0x2757 # ascii '' Missing userId in query.'')"

definition HistoryFailed :: reply where
  "HistoryFailed =
     failure 500 (0xD83D # 0xDEAB # ascii '' Failed to load withdrawal history.'')"

section \<open>POST /api/withdraw\<close>

text \<open>
  The request body \<open>{ userId, amount, phone?, mpesaNumber? }\<close>. \<open>amount_number\<close> is the value
  of \<open>Number(amount)\<close>, which is \<open>NaN\<close> for a body field that is not numeric.
\<close>

record request =
  userId :: "jsstring option"
  amount_number :: jsnum
  phone :: "jsstring option"
  mpesaNumber :: "jsstring option"

text \<open>The literal \<open>0.18\<close> is the double nearest to 18/100.\<close>

definition tax_rate :: jsnum where
  "tax_rate = round_double (18 / 100)"

text \<open>Lines 21-25: the amount and the payout number after normalisation.\<close>

definition norm_amount :: "request \<Rightarrow> jsnum" where
  "norm_amount req = (if js_isNaN (amount_number req) then Fin 0 else amount_number req)"

definition payoutNumber :: "request \<Rightarrow> jsstring" where
  "payoutNumber req = trim (str_or_empty (or_str (phone req) (mpesaNumber req)))"

text \<open>The conditions of lines 28, 35 and 47, each as "the check passes".\<close>

definition fields_present :: "request \<Rightarrow> bool" where
  "fields_present req =
     (\<not> (\<not> str_truthy (userId req) \<or> \<not> js_truthy (norm_amount req) \<or> payoutNumber req = []))"

definition meets_minimum :: "request \<Rightarrow> bool" where
  "meets_minimum req = (\<not> js_lt (norm_amount req) (Fin 200))"

definition within_hours :: "env \<Rightarrow> bool" where
  "within_hours ev = (\<not> (nairobi_hour (instant ev) < 9 \<or> 17 \<le> nairobi_hour (instant ev)))"

text \<open>Lines 70-71.\<close>

definition tax_of :: "jsnum \<Rightarrow> jsnum" where
  "tax_of amount = js_mul amount tax_rate"

definition net_of :: "jsnum \<Rightarrow> jsnum" where
  "net_of amount = js_floor (js_sub amount (tax_of amount))"

text \<open>Lines 74-81 and 86-91: the new withdrawal document and the embedded entry.\<close>

definition withdrawalDoc :: "env \<Rightarrow> request \<Rightarrow> withdrawal" where
  "withdrawalDoc ev req =
     \<lparr>w_id = new_id ev,
      w_user = str_or_empty (userId req),
      w_amount = norm_amount req,
      w_amountAfterTax = Some (net_of (norm_amount req)),
      w_mpesaNumber = payoutNumber req,
      w_status = ''pending'',
      w_date = instant ev\<rparr>"

definition mirror_entry :: "env \<Rightarrow> request \<Rightarrow> summary" where
  "mirror_entry ev req =
     \<lparr>s_amount = net_of (norm_amount req),
      s_phone = payoutNumber req,
      s_date = instant ev,
      s_status = ''pending''\<rparr>"

text \<open>Lines 85-96: the changes made to the loaded user document before it is saved.\<close>

definition debit :: "env \<Rightarrow> request \<Rightarrow> 'a user_scheme \<Rightarrow> 'a user_scheme" where
  "debit ev req u =
     (let u1 = (case withdrawals u of
                  Some l \<Rightarrow> u\<lparr>withdrawals := Some (l @ [mirror_entry ev req])\<rparr>
                | None \<Rightarrow> u);
          u2 = u1\<lparr>wallet := js_sub (wallet u1) (norm_amount req)\<rparr>
      in u2\<lparr>cashouts := Some (js_add (num_or_zero (cashouts u2)) (norm_amount req))\<rparr>)"

text \<open>The handler: the response and the collections after the request.\<close>

definition router_post :: "env \<Rightarrow> 'a user_scheme db \<Rightarrow> request \<Rightarrow> reply \<times> 'a user_scheme db" where
  "router_post ev d req =
     (if \<not> str_truthy (userId req) \<or> \<not> js_truthy (norm_amount req) \<or> payoutNumber req = []
      then (MissingFields, d)
      else if js_lt (norm_amount req) (Fin 200) then (BelowMinimum, d)
      else if nairobi_hour (instant ev) < 9 \<or> 17 \<le> nairobi_hour (instant ev)
      then (OutsideBusinessHours, d)
      else
        (case findById ev d (str_or_empty (userId req)) of
           Threw \<Rightarrow> (InternalError, d)
         | Returned None \<Rightarrow> (AccountNotFound, d)
         | Returned (Some u) \<Rightarrow>
             if js_lt (wallet u) (norm_amount req) then (InsufficientBalance, d)
             else
               (case save_withdrawal ev d (withdrawalDoc ev req) of
                  Threw \<Rightarrow> (InternalError, d)
                | Returned d1 \<Rightarrow>
                    (case save_user ev d1 (str_or_empty (userId req)) (debit ev req u) of
                       Threw \<Rightarrow> (InternalError, d1)
                     | Returned d2 \<Rightarrow>
                         (\<lparr>status = 201, success = True,
                           body = Submitted (net_of (norm_amount req))\<rparr>, d2)))))"

section \<open>GET /api/withdraw\<close>

text \<open>Lines 146-152: the shape the front end expects; the net amount when the document has one.\<close>

definition shape :: "withdrawal \<Rightarrow> history_entry" where
  "shape w =
     \<lparr>h_id = w_id w,
      h_amount = (case w_amountAfterTax w of Some n \<Rightarrow> n | None \<Rightarrow> w_amount w),
      h_status = w_status w,
      h_date = w_date w,
      h_phone = w_mpesaNumber w\<rparr>"

text \<open>The handler; its argument is \<open>req.query.userId\<close>. It writes to neither collection.\<close>

definition router_get :: "env \<Rightarrow> 'a user_scheme db \<Rightarrow> jsstring option \<Rightarrow> reply" where
  "router_get ev d q =
     (if \<not> str_truthy q then MissingUserId
      else
        (case find_withdrawals ev d (str_or_empty q) of
           Threw \<Rightarrow> HistoryFailed
         | Returned ws \<Rightarrow>
             if length ws = 0 then
               (case findById ev d (str_or_empty q) of
                  Threw \<Rightarrow> HistoryFailed
                | Returned None \<Rightarrow> AccountNotFound
                | Returned (Some u) \<Rightarrow>
                    \<lparr>status = 200, success = True,
                     body = EmbeddedHistory (case withdrawals u of Some l \<Rightarrow> l | None \<Rightarrow> [])\<rparr>)
             else \<lparr>status = 200, success = True, body = MappedHistory (map shape ws)\<rparr>))"

section \<open>A non-negative balance\<close>

text \<open>
  A balance is a currency amount: a finite double. \<open>is_double r\<close> says that the rational
  \<open>r\<close> is the value of a double, which the infinities and \<open>NaN\<close> are not.
\<close>

definition nonneg_balance :: "jsnum \<Rightarrow> bool" where
  "nonneg_balance w = (case w of Fin r \<Rightarrow> is_double r \<and> 0 \<le> r | _ \<Rightarrow> False)"

section \<open>Example data\<close>

text \<open>
  One account with 5000 in its wallet, no cashouts counter yet and an empty embedded list;
  the same account without an embedded list (\<open>veteran\<close>), with one earlier entry
  (\<open>legacy\<close>), and with one earlier entry and 2500 cashed out so far (\<open>regular\<close>).
  \<open>req_both\<close> gives both names of the payout number. \<open>morning\<close> is 2025-01-15 07:00
  UTC, 10:00 in Nairobi; \<open>evening\<close> is 17:00 UTC, 20:00 in Nairobi.
\<close>

definition acct_id :: jsstring where
  "acct_id = ascii ''64f1c0ffee0123456789abcd''"

definition acct :: profile where
  "acct = \<lparr>wallet = Fin 5000, cashouts = None, withdrawals = Some [],
           fullName = ascii ''Achieng'', email = ascii ''achieng@example.com''\<rparr>"

definition store :: "profile db" where
  "store = \<lparr>Users = [acct_id \<mapsto> acct], Withdrawals = []\<rparr>"

definition veteran :: profile where
  "veteran = acct\<lparr>cashouts := Some (Fin 2500), withdrawals := None\<rparr>"

definition old_entry :: summary where
  "old_entry = \<lparr>s_amount = Fin 410, s_phone = ascii ''0712345678'', s_date = 1700000000000,
                 s_status = ''paid''\<rparr>"

definition legacy :: profile where
  "legacy = acct\<lparr>withdrawals := Some [old_entry]\<rparr>"

definition store_veteran :: "profile db" where
  "store_veteran = \<lparr>Users = [acct_id \<mapsto> veteran], Withdrawals = []\<rparr>"

definition store_legacy :: "profile db" where
  "store_legacy = \<lparr>Users = [acct_id \<mapsto> legacy], Withdrawals = []\<rparr>"

definition regular :: profile where
  "regular = acct\<lparr>cashouts := Some (Fin 2500), withdrawals := Some [old_entry]\<rparr>"

definition store_regular :: "profile db" where
  "store_regular = \<lparr>Users = [acct_id \<mapsto> regular], Withdrawals = []\<rparr>"

definition morning :: env where
  "morning = \<lparr>instant = 1736924400000, process_utc_offset = 0,
              new_id = ascii ''6787a1b2c3d4e5f601234567'', failing = {}\<rparr>"

definition evening :: env where
  "evening = morning\<lparr>instant := 1736960400000\<rparr>"

definition req_1000 :: request where
  "req_1000 = \<lparr>userId = Some acct_id, amount_number = Fin 1000,
               phone = Some (ascii '' 0712345678 ''), mpesaNumber = None\<rparr>"

definition req_100 :: request where
  "req_100 = req_1000\<lparr>amount_number := Fin 100\<rparr>"

definition req_9000 :: request where
  "req_9000 = req_1000\<lparr>amount_number := Fin 9000\<rparr>"

definition req_nan :: request where
  "req_nan = req_1000\<lparr>amount_number := NaN\<rparr>"

definition req_stranger :: request where
  "req_stranger = req_1000\<lparr>userId := Some (ascii ''000000000000000000000000'')\<rparr>"

definition req_both :: request where
  "req_both = req_1000\<lparr>phone := Some (ascii '' 0712 345678 ''),
                         mpesaNumber := Some (ascii ''0799999999'')\<rparr>"

section \<open>Rounding to a double\<close>

subsection \<open>The binary exponent\<close>

lemma powi2_less_imp: "(2::rat) powi a < 2 powi b \<Longrightarrow> a < b"
proof (rule ccontr)
  assume a: "(2::rat) powi a < 2 powi b" and "\<not> a < b"
  then have "b \<le> a" by simp
  then have "(2::rat) powi b \<le> 2 powi a" by (rule power_int_increasing) simp
  with a show False by simp
qed

lemma bitlen_powi:
  assumes "0 < p"
  shows "(2::rat) powi (bitlen p - 1) \<le> of_int p" "of_int p < (2::rat) powi (bitlen p)"
proof -
  from bitlen_bounds[OF assms] have a: "2 ^ nat (bitlen p - 1) \<le> p" and b: "p < 2 ^ nat (bitlen p)"
    by auto
  have c: "1 \<le> bitlen p" using assms by (auto simp: bitlen_alt_def)
  from a have "(of_int (2 ^ nat (bitlen p - 1)) :: rat) \<le> of_int p" by (simp only: of_int_le_iff)
  then show "(2::rat) powi (bitlen p - 1) \<le> of_int p"
    using c by (simp add: power_int_nonneg_exp)
  from b have "(of_int p :: rat) < of_int (2 ^ nat (bitlen p))" by (simp only: of_int_less_iff)
  then show "of_int p < (2::rat) powi (bitlen p)"
    using c by (simp add: power_int_nonneg_exp)
qed

lemma ilog2_bounds:
  assumes "0 < x"
  shows "2 powi (ilog2 x) \<le> x" "x < 2 powi (ilog2 x + 1)"
proof -
  obtain p q where pq: "quotient_of x = (p, q)" by (cases "quotient_of x")
  then have q: "0 < q" and x: "x = of_int p / of_int q"
    using quotient_of_denom_pos quotient_of_div by blast+
  with assms have p: "0 < p" by (simp add: zero_less_divide_iff)
  define k where "k = bitlen p - bitlen q"
  note bp = bitlen_powi[OF p] and bq = bitlen_powi[OF q]
  have up: "x < 2 powi (k + 1)"
  proof -
    have "x < 2 powi (bitlen p) / of_int q"
      unfolding x using bp(2) q by (simp add: divide_strict_right_mono)
    also have "\<dots> \<le> 2 powi (bitlen p) / 2 powi (bitlen q - 1)"
      using bq(1) by (intro divide_left_mono) (auto intro!: mult_pos_pos simp: q)
    also have "\<dots> = 2 powi (bitlen p - (bitlen q - 1))"
      by (rule power_int_diff [symmetric]) simp
    also have "bitlen p - (bitlen q - 1) = k + 1"
      by (simp add: k_def)
    finally show ?thesis .
  qed
  have lo: "2 powi (k - 1) \<le> x"
  proof -
    have e: "k - 1 = bitlen p - 1 - bitlen q"
      by (simp add: k_def)
    have "2 powi (k - 1) = 2 powi (bitlen p - 1) / (2::rat) powi (bitlen q)"
      unfolding e by (rule power_int_diff) simp
    also have "\<dots> \<le> of_int p / 2 powi (bitlen q)"
      using bp(1) by (simp add: divide_right_mono)
    also have "\<dots> \<le> of_int p / of_int q"
      using bq(2) p q by (intro divide_left_mono) (auto intro!: mult_pos_pos)
    finally show ?thesis by (simp add: x)
  qed
  have il: "ilog2 x = (if 2 powi k \<le> x then k else k - 1)"
    using assms pq by (simp add: ilog2_def k_def Let_def)
  show "2 powi (ilog2 x) \<le> x" using lo by (simp add: il)
  show "x < 2 powi (ilog2 x + 1)" using up by (auto simp add: il not_le)
qed

lemma ilog2_unique:
  assumes "0 < x" "2 powi k \<le> x" "x < 2 powi (k + 1)"
  shows "ilog2 x = k"
proof (rule ccontr)
  assume ne: "ilog2 x \<noteq> k"
  note b = ilog2_bounds[OF assms(1)]
  show False
  proof (cases "ilog2 x < k")
    case True
    then have "(2::rat) powi (ilog2 x + 1) \<le> 2 powi k"
      by (intro power_int_increasing) auto
    with b(2) assms(2) show False by simp
  next
    case False
    with ne have "k + 1 \<le> ilog2 x" by simp
    then have "(2::rat) powi (k + 1) \<le> 2 powi (ilog2 x)"
      by (intro power_int_increasing) auto
    with b(1) assms(3) show False by simp
  qed
qed

lemma ilog2_abs [simp]: "ilog2 \<bar>x\<bar> = ilog2 x"
  by (simp add: ilog2_def)

lemma ilog2_mono:
  assumes "0 < x" "x \<le> y"
  shows "ilog2 x \<le> ilog2 y"
proof -
  have "2 powi (ilog2 x) \<le> x" using assms by (intro ilog2_bounds)
  also have "x \<le> y" by fact
  also have "y < 2 powi (ilog2 y + 1)" using assms by (intro ilog2_bounds) simp
  finally have "ilog2 x < ilog2 y + 1"
    by (rule powi2_less_imp)
  then show ?thesis by simp
qed

subsection \<open>Rounding to the nearest integer\<close>

lemma rne_of_int [simp]: "rne (of_int n) = n"
  by (simp add: rne_def)

lemma rne_le: "x \<le> of_int n \<Longrightarrow> rne x \<le> n"
  unfolding rne_def Let_def
  by (auto simp: floor_le_iff le_floor_iff field_simps)

lemma rne_ge: "of_int n \<le> x \<Longrightarrow> n \<le> rne x"
  unfolding rne_def Let_def
  by (auto simp: le_floor_iff) linarith+

lemma rne_near:
  assumes "of_int n - 1 / 2 < x" "x < of_int n + 1 / 2"
  shows "rne x = n"
proof (cases "of_int n \<le> x")
  case True
  with assms have "\<lfloor>x\<rfloor> = n" by (auto simp: floor_eq_iff)
  with assms show ?thesis by (simp add: rne_def)
next
  case False
  with assms have "\<lfloor>x\<rfloor> = n - 1" by (auto simp: floor_eq_iff)
  with assms False show ?thesis by (simp add: rne_def)
qed

subsection \<open>Values that rounding keeps\<close>

lemma round_mag_abs [simp]: "round_mag \<bar>x\<bar> = round_mag x"
  by (simp add: round_mag_def)

lemma round_mag_nonneg: "0 \<le> round_mag x"
proof -
  have "0 \<le> rne (\<bar>x\<bar> / 2 powi e)" for e
    by (rule rne_ge) simp
  then show ?thesis
    by (simp add: round_mag_def Let_def)
qed

lemma powi_split: "e0 \<le> e \<Longrightarrow> (2::rat) powi e = of_int (2 ^ nat (e - e0)) * 2 powi e0"
proof -
  assume a: "e0 \<le> e"
  have "(2::rat) powi e = 2 powi ((e - e0) + e0)" by simp
  also have "\<dots> = 2 powi (e - e0) * 2 powi e0"
    by (rule power_int_add) simp
  also have "(2::rat) powi (e - e0) = of_int (2 ^ nat (e - e0))"
    using a by (simp add: power_int_nonneg_exp)
  finally show ?thesis .
qed

text \<open>
  A value with at most 53 significant bits, on or above the subnormal spacing, is kept.
\<close>

lemma round_mag_exact:
  assumes x: "x = of_int m * 2 powi e" and m: "0 < m" "m < 2 ^ 53" and e: "- 1074 \<le> e"
  shows "round_mag x = x"
proof -
  have pos: "0 < x" using m by (simp add: x)
  define e0 where "e0 = max (ilog2 x - 52) (- 1074)"
  have "2 powi (ilog2 x) \<le> x" using pos by (rule ilog2_bounds)
  also have "x < 2 ^ 53 * 2 powi e"
  proof -
    have "(of_int m :: rat) < of_int (2 ^ 53)" using m(2) by (simp only: of_int_less_iff)
    then show ?thesis by (simp add: x)
  qed
  also have "(2::rat) ^ 53 * 2 powi e = 2 powi (53 + e)"
    by (subst power_int_add) simp_all
  finally have "ilog2 x < 53 + e"
    by (rule powi2_less_imp)
  with e have le: "e0 \<le> e" by (simp add: e0_def)
  have xe: "x = of_int (m * 2 ^ nat (e - e0)) * 2 powi e0"
    by (subst x, subst powi_split [OF le]) simp
  then have "\<bar>x\<bar> / 2 powi e0 = of_int (m * 2 ^ nat (e - e0))"
    using pos by simp
  then have "rne (\<bar>x\<bar> / 2 powi e0) = m * 2 ^ nat (e - e0)"
    by (simp only: rne_of_int)
  then have "round_mag x = of_int (m * 2 ^ nat (e - e0)) * 2 powi e0"
    by (simp add: round_mag_def e0_def Let_def)
  also have "\<dots> = x"
    by (rule xe [symmetric])
  finally show ?thesis .
qed

lemma round_double_exact:
  assumes "x = of_int m * 2 powi e" "\<bar>m\<bar> < 2 ^ 53" "- 1074 \<le> e" "\<bar>x\<bar> < 2 powi 1024"
  shows "round_double x = Fin x"
proof (cases "m = 0")
  case True
  then show ?thesis by (simp add: assms(1) round_double_def)
next
  case False
  have "\<bar>x\<bar> = of_int \<bar>m\<bar> * 2 powi e"
    by (simp add: assms(1) abs_mult)
  moreover have "0 < \<bar>m\<bar>" using False by simp
  ultimately have "round_mag \<bar>x\<bar> = \<bar>x\<bar>"
    using assms(2,3) by (rule round_mag_exact)
  then have r: "round_mag x = \<bar>x\<bar>" by simp
  have "x \<noteq> 0" using False by (simp add: assms(1))
  then show ?thesis
    using assms(4) by (simp add: round_double_def r Let_def not_le [symmetric] mult_sgn_abs)
qed

lemma round_double_of_int:
  "\<bar>n\<bar> < 2 ^ 53 \<Longrightarrow> round_double (of_int n) = Fin (of_int n)"
proof -
  assume a: "\<bar>n\<bar> < 2 ^ 53"
  then have "(of_int \<bar>n\<bar> :: rat) < of_int (2 ^ 53)" by (simp only: of_int_less_iff)
  then have "\<bar>of_int n :: rat\<bar> < 2 powi 1024" by simp
  with a show ?thesis
    by (intro round_double_exact [where m = n and e = 0]) simp_all
qed

lemma round_double_numeral:
  "(numeral k :: int) < 2 ^ 53 \<Longrightarrow> round_double (numeral k) = Fin (numeral k)"
  using round_double_of_int [of "numeral k"] by simp

text \<open>
  Whole amounts below \<open>2 ^ 53\<close> are subtracted and added without rounding.
\<close>

lemma whole_amounts_exact:
  assumes "\<bar>w\<bar> < 2 ^ 53" "\<bar>a\<bar> < 2 ^ 53"
  shows "\<bar>w - a\<bar> < 2 ^ 53 \<Longrightarrow> js_sub (Fin (of_int w)) (Fin (of_int a)) = Fin (of_int (w - a))"
    and "\<bar>w + a\<bar> < 2 ^ 53 \<Longrightarrow> js_add (Fin (of_int w)) (Fin (of_int a)) = Fin (of_int (w + a))"
  using round_double_of_int [of "w - a"] round_double_of_int [of "w + a"]
  by (simp_all add: js_sub_def)

subsection \<open>Rounding a given value\<close>

text \<open>
  The double nearest to \<open>x\<close>, from the binade of \<open>x\<close> and the nearest multiple of the
  spacing there.
\<close>

lemma round_double_eval:
  assumes "0 < x" "2 powi k \<le> x" "x < 2 powi (k + 1)"
    and "e = max (k - 52) (- 1074)"
    and "of_int n - 1 / 2 < x / 2 powi e" "x / 2 powi e < of_int n + 1 / 2"
    and "of_int n * 2 powi e < (2::rat) powi 1024"
  shows "round_double x = Fin (of_int n * 2 powi e)"
proof -
  have "ilog2 x = k" using assms(1-3) by (rule ilog2_unique)
  moreover have "rne (x / 2 powi e) = n" using assms(5,6) by (rule rne_near)
  ultimately have "round_mag x = of_int n * 2 powi e"
    using assms(1,4) by (simp add: round_mag_def Let_def)
  then show ?thesis
    using assms(1,7) by (simp add: round_double_def)
qed

text \<open>
  The literal \<open>0.18\<close> is the double \<open>0x3FC70A3D70A3D70A\<close>, a little below 18/100.
\<close>

lemma tax_rate_value: "tax_rate = Fin (3242591731706757 / 2 ^ 54)"
  unfolding tax_rate_def
  by (subst round_double_eval [where k = "- 3" and n = 6485183463413514 and e = "- 55"]) simp_all

lemma tax_1000: "tax_of (Fin 1000) = Fin 180"
  unfolding tax_of_def tax_rate_value js_mul.simps
  by (subst round_double_eval [where k = 7 and n = 6333186975989760 and e = "- 45"]) simp_all

lemma net_1000: "net_of (Fin 1000) = Fin 820"
  by (simp add: net_of_def tax_1000 js_sub_def round_double_numeral)

lemma tax_201: "tax_of (Fin 201) = Fin (5091882328695767 / 2 ^ 47)"
  unfolding tax_of_def tax_rate_value js_mul.simps
  by (subst round_double_eval [where k = 5 and n = 5091882328695767 and e = "- 47"]) simp_all

lemma net_201: "net_of (Fin 201) = Fin 164"
proof -
  have "round_double (201 - 5091882328695767 / 2 ^ 47) = Fin (5799088207681290 / 2 ^ 45)"
    by (subst round_double_eval [where k = 7 and n = 5799088207681290 and e = "- 45"]) simp_all
  moreover have "\<lfloor>(5799088207681290::rat) / 2 ^ 45\<rfloor> = 164"
    by (simp add: floor_eq_iff)
  ultimately show ?thesis
    by (simp add: net_of_def tax_201 js_sub_def)
qed

subsection \<open>Rounding between zero and a double\<close>

lemma is_double_0 [simp]: "is_double 0"
  by (simp add: is_double_def round_double_def)

lemma is_double_posD:
  assumes "is_double w" "0 < w"
  shows "round_mag w = w" "w < 2 powi 1024"
  using assms
  by (auto simp: is_double_def round_double_def Let_def not_le split: if_splits)

lemma round_mag_le:
  assumes x: "0 < x" "x \<le> w" and w: "round_mag w = w"
  shows "round_mag x \<le> w"
proof -
  define ex where "ex = max (ilog2 x - 52) (- 1074)"
  define ew where "ew = max (ilog2 w - 52) (- 1074)"
  define M where "M = rne (\<bar>w\<bar> / 2 powi ew)"
  have le: "ex \<le> ew"
    using ilog2_mono [OF x] by (simp add: ex_def ew_def)
  have "w = of_int M * 2 powi ew"
    using w by (simp add: round_mag_def M_def ew_def Let_def)
  then have wN: "w = of_int (M * 2 ^ nat (ew - ex)) * 2 powi ex"
    by (subst (asm) powi_split [OF le]) simp
  have "x / 2 powi ex \<le> w / 2 powi ex"
    using x(2) by (simp add: divide_right_mono)
  also have "w / 2 powi ex = of_int (M * 2 ^ nat (ew - ex))"
    by (subst wN) simp
  finally have "rne (x / 2 powi ex) \<le> M * 2 ^ nat (ew - ex)"
    by (rule rne_le)
  then have "(of_int (rne (x / 2 powi ex)) :: rat) \<le> of_int (M * 2 ^ nat (ew - ex))"
    by (simp only: of_int_le_iff)
  then have "of_int (rne (x / 2 powi ex)) * 2 powi ex \<le> of_int (M * 2 ^ nat (ew - ex)) * (2::rat) powi ex"
    by (rule mult_right_mono) simp
  then show ?thesis
    using x(1) wN by (simp add: round_mag_def ex_def Let_def)
qed

lemma round_mag_repr:
  assumes "0 < x"
  shows "round_mag x = 0 \<or>
         (\<exists>m e. round_mag x = of_int m * 2 powi e \<and> 0 < m \<and> m < 2 ^ 53 \<and> - 1074 \<le> e)"
proof -
  define e where "e = max (ilog2 x - 52) (- 1074)"
  define M where "M = rne (x / 2 powi e)"
  have r: "round_mag x = of_int M * 2 powi e"
    using assms by (simp add: round_mag_def M_def e_def Let_def)
  have e: "- 1074 \<le> e" "ilog2 x + 1 \<le> 53 + e" by (simp_all add: e_def)
  have "x < 2 powi (ilog2 x + 1)" using assms by (rule ilog2_bounds)
  also have "\<dots> \<le> 2 powi (53 + e)" using e(2) by (rule power_int_increasing) simp
  also have "\<dots> = 2 ^ 53 * 2 powi e" by (subst power_int_add) simp_all
  finally have "x / 2 powi e < 2 ^ 53" by (simp add: divide_less_eq)
  then have "x / 2 powi e \<le> of_int (2 ^ 53)" by simp
  then have hi: "M \<le> 2 ^ 53" unfolding M_def by (rule rne_le)
  have "of_int 0 \<le> x / 2 powi e" using assms by simp
  then have lo: "0 \<le> M" unfolding M_def by (rule rne_ge)
  consider "M = 0" | "0 < M" "M < 2 ^ 53" | "M = 2 ^ 53" using lo hi by linarith
  then show ?thesis
  proof cases
    case 1
    then show ?thesis by (simp add: r)
  next
    case 2
    with r e(1) show ?thesis by blast
  next
    case 3
    have "round_mag x = of_int (2 ^ 52) * 2 powi (e + 1)"
      by (simp add: r 3 power_int_add)
    moreover have "(0::int) < 2 ^ 52" "(2::int) ^ 52 < 2 ^ 53" "- 1074 \<le> e + 1"
      using e(1) by simp_all
    ultimately show ?thesis by blast
  qed
qed

text \<open>
  Rounding a value between zero and a non-negative double gives a double in that range.
\<close>

lemma round_double_between:
  assumes w: "is_double w" and x: "0 \<le> x" "x \<le> w"
  shows "\<exists>y. round_double x = Fin y \<and> is_double y \<and> 0 \<le> y \<and> y \<le> w"
proof (cases "x = 0")
  case True
  with x show ?thesis by (simp add: round_double_def)
next
  case False
  with x have pos: "0 < x" "0 < w" by simp_all
  note wd = is_double_posD [OF w pos(2)]
  have le: "round_mag x \<le> w" using pos(1) x(2) wd(1) by (rule round_mag_le)
  with wd(2) have fin: "round_mag x < 2 powi 1024" by simp
  then have rd: "round_double x = Fin (round_mag x)"
    using pos(1) by (simp add: round_double_def Let_def)
  have "is_double (round_mag x)"
    using round_mag_repr [OF pos(1)]
  proof
    assume "round_mag x = 0"
    then show ?thesis by simp
  next
    assume "\<exists>m e. round_mag x = of_int m * 2 powi e \<and> 0 < m \<and> m < 2 ^ 53 \<and> - 1074 \<le> e"
    then obtain m e where me: "round_mag x = of_int m * 2 powi e" "0 < m" "m < 2 ^ 53" "- 1074 \<le> e"
      by blast
    have "\<bar>round_mag x\<bar> < 2 powi 1024" using fin round_mag_nonneg [of x] by simp
    with me show ?thesis
      unfolding is_double_def by (intro round_double_exact [where m = m and e = e]) simp_all
  qed
  with rd le round_mag_nonneg [of x] show ?thesis by simp
qed

text \<open>
  The net amount of a non-negative double is a whole number between zero and that amount.
\<close>

lemma net_whole:
  assumes "is_double a" "0 \<le> a"
  shows "\<exists>n. net_of (Fin a) = Fin (of_int n) \<and> 0 \<le> n \<and> of_int n \<le> a"
proof -
  define c :: rat where "c = 3242591731706757 / 2 ^ 54"
  have tr: "tax_rate = Fin c" by (simp only: c_def tax_rate_value)
  have c: "0 \<le> c" "c \<le> 1" by (simp_all add: c_def)
  have "0 \<le> a * c" "a * c \<le> a"
    using assms(2) c by (simp_all add: mult_left_le)
  with assms(1) obtain t where t: "round_double (a * c) = Fin t" "0 \<le> t" "t \<le> a"
    using round_double_between by blast
  then have "0 \<le> a - t" "a - t \<le> a" by simp_all
  with assms(1) obtain y where y: "round_double (a - t) = Fin y" "0 \<le> y" "y \<le> a"
    using round_double_between by blast
  have "net_of (Fin a) = Fin (of_int \<lfloor>y\<rfloor>)"
    by (simp add: net_of_def tax_of_def tr t js_sub_def y)
  moreover have "0 \<le> \<lfloor>y\<rfloor>" using y(2) by simp
  moreover have "of_int \<lfloor>y\<rfloor> \<le> a" using y(3) of_int_floor_le [of y] by linarith
  ultimately show ?thesis by blast
qed

section \<open>The handlers, path by path\<close>

lemma reply_simps [simp]:
  "status (failure c m) = c" "success (failure c m) = False" "body (failure c m) = Message m"
  by (simp_all add: failure_def)

lemmas reply_defs = MissingFields_def BelowMinimum_def OutsideBusinessHours_def
  AccountNotFound_def InsufficientBalance_def InternalError_def

lemma not_success [simp]:
  "\<not> success MissingFields" "\<not> success BelowMinimum" "\<not> success OutsideBusinessHours"
  "\<not> success AccountNotFound" "\<not> success InsufficientBalance" "\<not> success InternalError"
  by (simp_all add: reply_defs)

lemma replies_distinct:
  "distinct [MissingFields, BelowMinimum, OutsideBusinessHours, AccountNotFound,
     InsufficientBalance, InternalError]"
  by (simp add: reply_defs failure_def ascii_def)

lemma norm_amount_not_NaN [simp]: "norm_amount req \<noteq> NaN"
  by (simp add: norm_amount_def js_isNaN_def)

lemma str_truthy_Some: "str_truthy v \<longleftrightarrow> (\<exists>s. v = Some s \<and> s \<noteq> [])"
  by (cases v) (simp_all add: str_truthy_def)

lemma norm_amount_eq: "js_truthy (norm_amount req) \<Longrightarrow> norm_amount req = amount_number req"
  by (auto simp: norm_amount_def js_truthy_def js_isNaN_def split: if_splits)

lemma js_lt_200_iff: "a \<noteq> NaN \<Longrightarrow> \<not> js_lt a (Fin 200) \<longleftrightarrow> a = PInf \<or> (\<exists>x. a = Fin x \<and> 200 \<le> x)"
  by (cases a) auto

text \<open>
  What the three checks on the request and the clock say: the identifier and the payout
  number are not empty and the amount is not zero; the amount is at least 200; the hour in
  Nairobi is from 9 to 16.
\<close>

lemma checks_meaning:
  "fields_present req \<longleftrightarrow>
     (\<exists>uid. userId req = Some uid \<and> uid \<noteq> []) \<and> norm_amount req \<noteq> Fin 0 \<and>
     payoutNumber req \<noteq> []"
  "meets_minimum req \<longleftrightarrow> norm_amount req = PInf \<or> (\<exists>a. norm_amount req = Fin a \<and> 200 \<le> a)"
  "within_hours ev \<longleftrightarrow> 9 \<le> nairobi_hour (instant ev) \<and> nairobi_hour (instant ev) < 17"
  "0 \<le> nairobi_hour t \<and> nairobi_hour t < 24"
proof -
  show "fields_present req \<longleftrightarrow>
     (\<exists>uid. userId req = Some uid \<and> uid \<noteq> []) \<and> norm_amount req \<noteq> Fin 0 \<and>
     payoutNumber req \<noteq> []"
    by (auto simp: fields_present_def str_truthy_Some js_truthy_def)
  show "meets_minimum req \<longleftrightarrow> norm_amount req = PInf \<or> (\<exists>a. norm_amount req = Fin a \<and> 200 \<le> a)"
    unfolding meets_minimum_def by (rule js_lt_200_iff) simp
  show "within_hours ev \<longleftrightarrow> 9 \<le> nairobi_hour (instant ev) \<and> nairobi_hour (instant ev) < 17"
    by (auto simp: within_hours_def)
  show "0 \<le> nairobi_hour t \<and> nairobi_hour t < 24"
    by (simp add: nairobi_hour_def)
qed

lemma post_missing:
  "\<not> fields_present req \<Longrightarrow> router_post ev d req = (MissingFields, d)"
  by (simp add: router_post_def fields_present_def)

lemma post_below:
  "fields_present req \<Longrightarrow> \<not> meets_minimum req \<Longrightarrow> router_post ev d req = (BelowMinimum, d)"
  by (simp add: router_post_def fields_present_def meets_minimum_def)

lemma post_outside:
  "fields_present req \<Longrightarrow> meets_minimum req \<Longrightarrow> \<not> within_hours ev \<Longrightarrow>
   router_post ev d req = (OutsideBusinessHours, d)"
  by (simp add: router_post_def fields_present_def meets_minimum_def within_hours_def)

lemma post_early:
  assumes "\<not> (fields_present req \<and> meets_minimum req \<and> within_hours ev)"
  shows "snd (router_post ev d req) = d" "\<not> success (fst (router_post ev d req))"
proof -
  consider "\<not> fields_present req" | "fields_present req" "\<not> meets_minimum req"
    | "fields_present req" "meets_minimum req" "\<not> within_hours ev"
    using assms by blast
  then have "snd (router_post ev d req) = d \<and> \<not> success (fst (router_post ev d req))"
    by cases (simp_all add: post_missing post_below post_outside)
  then show "snd (router_post ev d req) = d" "\<not> success (fst (router_post ev d req))"
    by simp_all
qed

lemma post_lookup:
  "fields_present req \<Longrightarrow> meets_minimum req \<Longrightarrow> within_hours ev \<Longrightarrow>
   router_post ev d req =
     (case findById ev d (str_or_empty (userId req)) of
        Threw \<Rightarrow> (InternalError, d)
      | Returned None \<Rightarrow> (AccountNotFound, d)
      | Returned (Some u) \<Rightarrow>
          if js_lt (wallet u) (norm_amount req) then (InsufficientBalance, d)
          else
            (case save_withdrawal ev d (withdrawalDoc ev req) of
               Threw \<Rightarrow> (InternalError, d)
             | Returned d1 \<Rightarrow>
                 (case save_user ev d1 (str_or_empty (userId req)) (debit ev req u) of
                    Threw \<Rightarrow> (InternalError, d1)
                  | Returned d2 \<Rightarrow>
                      (\<lparr>status = 201, success = True,
                        body = Submitted (net_of (norm_amount req))\<rparr>, d2))))"
  by (simp add: router_post_def fields_present_def meets_minimum_def within_hours_def)

lemma post_commit:
  assumes "fields_present req" "meets_minimum req" "within_hours ev"
    and "findById ev d (str_or_empty (userId req)) = Returned (Some u)"
    and "\<not> js_lt (wallet u) (norm_amount req)"
  shows "router_post ev d req =
     (if SaveWithdrawal \<in> failing ev then (InternalError, d)
      else if SaveUser \<in> failing ev
      then (InternalError, d\<lparr>Withdrawals := Withdrawals d @ [withdrawalDoc ev req]\<rparr>)
      else (\<lparr>status = 201, success = True, body = Submitted (net_of (norm_amount req))\<rparr>,
            d\<lparr>Withdrawals := Withdrawals d @ [withdrawalDoc ev req],
              Users := (Users d)(str_or_empty (userId req) \<mapsto> debit ev req u)\<rparr>))"
  using assms(4,5)
  by (simp add: post_lookup [OF assms(1-3)] save_withdrawal_def save_user_def)

text \<open>
  What an accepted submission has passed and done.
\<close>

lemma accepted_D:
  assumes r: "router_post ev d req = (r, d')" and s: "success r"
  obtains uid u where
    "userId req = Some uid" "fields_present req" "meets_minimum req" "within_hours ev"
    "failing ev \<inter> {FindUser, SaveWithdrawal, SaveUser} = {}"
    "Users d uid = Some u" "\<not> js_lt (wallet u) (norm_amount req)"
    "r = \<lparr>status = 201, success = True, body = Submitted (net_of (norm_amount req))\<rparr>"
    "d' = d\<lparr>Withdrawals := Withdrawals d @ [withdrawalDoc ev req],
            Users := (Users d)(uid \<mapsto> debit ev req u)\<rparr>"
proof -
  have f: "fields_present req"
    using r s post_missing [of req ev d] by (cases "fields_present req") auto
  have m: "meets_minimum req"
    using r s post_below [OF f, of ev d] by (cases "meets_minimum req") auto
  have h: "within_hours ev"
    using r s post_outside [OF f m, of ev d] by (cases "within_hours ev") auto
  from f obtain uid where uid: "userId req = Some uid" "uid \<noteq> []"
    by (auto simp: fields_present_def str_truthy_Some)
  note l = post_lookup [OF f m h, of d]
  from r s l obtain u where u: "findById ev d (str_or_empty (userId req)) = Returned (Some u)"
    by (cases "findById ev d (str_or_empty (userId req))") (auto split: option.splits)
  have w: "\<not> js_lt (wallet u) (norm_amount req)"
    using r s l u by (cases "js_lt (wallet u) (norm_amount req)") auto
  note c = post_commit [OF f m h u w]
  have sw: "SaveWithdrawal \<notin> failing ev"
    using r s c by (cases "SaveWithdrawal \<in> failing ev") auto
  have su: "SaveUser \<notin> failing ev"
    using r s c sw by (cases "SaveUser \<in> failing ev") auto
  have fu: "FindUser \<notin> failing ev" "Users d uid = Some u"
    using u uid by (auto simp: findById_def str_or_empty_def split: if_splits)
  show ?thesis
    using that [OF uid(1) f m h _ fu(2) w] r c sw su fu(1) uid
    by (simp add: str_or_empty_def)
qed

text \<open>
  Every outcome of the handler: nothing written, only the withdrawal document written, or accepted.
\<close>

lemma post_cases:
  assumes "router_post ev d req = (r, d')"
  obtains
    (rejected) "d' = d" "\<not> success r"
  | (half) "d' = d\<lparr>Withdrawals := Withdrawals d @ [withdrawalDoc ev req]\<rparr>" "\<not> success r"
  | (accepted) "success r"
proof (cases "success r")
  case True
  then show ?thesis by (rule accepted)
next
  case ns: False
  show ?thesis
  proof (cases "fields_present req \<and> meets_minimum req \<and> within_hours ev")
    case False
    then have "d' = d"
      using assms post_missing [of req ev d] post_below [of req ev d] post_outside [of req ev d]
      by auto
    then show ?thesis using ns by (rule rejected)
  next
    case True
    then have f: "fields_present req" "meets_minimum req" "within_hours ev" by simp_all
    note l = post_lookup [OF f, of d]
    show ?thesis
    proof (cases "findById ev d (str_or_empty (userId req))")
      case Threw
      with l assms have "d' = d" by simp
      then show ?thesis using ns by (rule rejected)
    next
      case (Returned uo)
      show ?thesis
      proof (cases uo)
        case None
        with Returned l assms have "d' = d" by simp
        then show ?thesis using ns by (rule rejected)
      next
        case (Some u)
        show ?thesis
        proof (cases "js_lt (wallet u) (norm_amount req)")
          case True
          with Some Returned l assms have "d' = d" by simp
          then show ?thesis using ns by (rule rejected)
        next
          case False
          from Returned Some have "findById ev d (str_or_empty (userId req)) = Returned (Some u)"
            by simp
          note c = post_commit [OF f this False]
          show ?thesis
          proof (cases "SaveWithdrawal \<in> failing ev")
            case True
            with c assms have "d' = d" by simp
            then show ?thesis using ns by (rule rejected)
          next
            case sw: False
            show ?thesis
            proof (cases "SaveUser \<in> failing ev")
              case True
              with c sw assms have "d' = d\<lparr>Withdrawals := Withdrawals d @ [withdrawalDoc ev req]\<rparr>"
                by simp
              then show ?thesis using ns by (rule half)
            next
              case False
              with c sw assms ns show ?thesis by auto
            qed
          qed
        qed
      qed
    qed
  qed
qed

lemma debit_simps:
  "wallet (debit ev req u) = js_sub (wallet u) (norm_amount req)"
  "cashouts (debit ev req u) = Some (js_add (num_or_zero (cashouts u)) (norm_amount req))"
  "withdrawals (debit ev req u) = map_option (\<lambda>l. l @ [mirror_entry ev req]) (withdrawals u)"
  "user.more (debit ev req u) = user.more u"
  by (cases "withdrawals u"; simp add: debit_def)+

lemma debit_keeps_nonneg:
  assumes "nonneg_balance (wallet u)" "\<not> js_lt (wallet u) (norm_amount req)" "meets_minimum req"
  shows "nonneg_balance (wallet (debit ev req u))"
proof -
  from assms(1) obtain w where w: "wallet u = Fin w" "is_double w" "0 \<le> w"
    by (cases "wallet u") (simp_all add: nonneg_balance_def)
  from assms(2,3) w(1) obtain x where x: "norm_amount req = Fin x" "x \<le> w" "200 \<le> x"
    by (cases "norm_amount req") (simp_all add: meets_minimum_def)
  have "0 \<le> w - x" "w - x \<le> w" using x by simp_all
  with w(2) obtain y where "round_double (w - x) = Fin y" "is_double y" "0 \<le> y"
    using round_double_between [of w "w - x"] by blast
  then show ?thesis
    by (simp add: debit_simps w x js_sub_def nonneg_balance_def)
qed

lemma offset_unread:
  "findById (ev\<lparr>process_utc_offset := z\<rparr>) d uid = findById ev d uid"
  "save_withdrawal (ev\<lparr>process_utc_offset := z\<rparr>) d w = save_withdrawal ev d w"
  "save_user (ev\<lparr>process_utc_offset := z\<rparr>) d uid u = save_user ev d uid u"
  "withdrawalDoc (ev\<lparr>process_utc_offset := z\<rparr>) req = withdrawalDoc ev req"
  "mirror_entry (ev\<lparr>process_utc_offset := z\<rparr>) req = mirror_entry ev req"
  by (simp_all add: findById_def save_withdrawal_def save_user_def withdrawalDoc_def
      mirror_entry_def)

lemma offset_unread_debit:
  "debit (ev\<lparr>process_utc_offset := z\<rparr>) req u = debit ev req u"
  by (cases "withdrawals u") (simp_all add: debit_def offset_unread)

lemma find_withdrawals_none:
  "find_withdrawals ev d uid = Returned [] \<longleftrightarrow>
   FindWithdrawals \<notin> failing ev \<and> (\<forall>w \<in> set (Withdrawals d). w_user w \<noteq> uid)"
proof -
  have "sort_key f xs = [] \<longleftrightarrow> xs = []" for f :: "withdrawal \<Rightarrow> int" and xs
    by (metis length_sort list.size(3) length_0_conv)
  then show ?thesis
    by (auto simp: find_withdrawals_def filter_empty_conv)
qed

section \<open>The example data, evaluated\<close>

lemma acct_id_nonempty [simp]: "acct_id \<noteq> []" "str_truthy (Some acct_id)" "str_or_empty (Some acct_id) = acct_id"
  by (simp_all add: acct_id_def ascii_def str_truthy_def str_or_empty_def)

lemma req_1000_simps:
  "userId req_1000 = Some acct_id" "amount_number req_1000 = Fin 1000"
  "norm_amount req_1000 = Fin 1000"
  "payoutNumber req_1000 = ascii ''0712345678''"
  by (simp_all add: payoutNumber_def req_1000_def or_str_def str_truthy_def str_or_empty_def trim_def
      ascii_def is_js_space_def norm_amount_def js_isNaN_def)

lemma req_simps:
  "userId req_100 = Some acct_id" "norm_amount req_100 = Fin 100" "payoutNumber req_100 = ascii ''0712345678''"
  "userId req_9000 = Some acct_id" "norm_amount req_9000 = Fin 9000" "payoutNumber req_9000 = ascii ''0712345678''"
  "userId req_nan = Some acct_id" "amount_number req_nan = NaN" "norm_amount req_nan = Fin 0"
  "payoutNumber req_nan = ascii ''0712345678''"
  "userId req_stranger = Some (ascii ''000000000000000000000000'')" "norm_amount req_stranger = Fin 1000"
  "payoutNumber req_stranger = ascii ''0712345678''"
  using req_1000_simps
  by (simp_all add: req_100_def req_9000_def req_nan_def req_stranger_def payoutNumber_def
      norm_amount_def js_isNaN_def)

lemma morning_simps:
  "instant morning = 1736924400000" "nairobi_hour 1736924400000 = 10" "failing morning = {}"
  "new_id morning = ascii ''6787a1b2c3d4e5f601234567''"
  by (simp_all add: nairobi_hour_def morning_def)

lemma store_simps:
  "Users store = [acct_id \<mapsto> acct]" "Withdrawals store = []"
  by (simp_all add: store_def)

lemma acct_simps:
  "wallet acct = Fin 5000" "cashouts acct = None" "withdrawals acct = Some []"
  by (simp_all add: acct_def)

lemma example_checks:
  "fields_present req_1000" "fields_present req_100" "fields_present req_9000"
  "\<not> fields_present req_nan" "fields_present req_stranger"
  "meets_minimum req_1000" "\<not> meets_minimum req_100" "meets_minimum req_9000"
  "meets_minimum req_stranger"
  "within_hours morning" "\<not> within_hours evening"
  by (simp_all add: fields_present_def meets_minimum_def within_hours_def req_1000_simps req_simps
      js_truthy_def ascii_def morning_simps evening_def nairobi_hour_def str_truthy_def)

lemma example_lookups:
  "Users store acct_id = Some acct"
  "Users store (ascii ''000000000000000000000000'') = None"
  "findById morning store uid = Returned (Users store uid)"
  "findById evening store uid = Returned (Users store uid)"
  by (simp_all add: findById_def morning_simps evening_def store_simps acct_id_def ascii_def)

lemma example_accepted: "router_post morning store req_1000 = 
   (\<lparr>status = 201, success = True, body = Submitted (Fin 820)\<rparr>,
    \<lparr>Users = [acct_id \<mapsto> acct\<lparr>wallet := Fin 4000, cashouts := Some (Fin 1000),
         withdrawals := Some [\<lparr>s_amount = Fin 820, s_phone = ascii ''0712345678'', s_date = 1736924400000, s_status = ''pending''\<rparr>]\<rparr>],
     Withdrawals = [\<lparr>w_id = ascii ''6787a1b2c3d4e5f601234567'', w_user = acct_id, w_amount = Fin 1000, w_amountAfterTax = Some (Fin 820),
        w_mpesaNumber = ascii ''0712345678'', w_status = ''pending'', w_date = 1736924400000\<rparr>]\<rparr>)"
  by (simp add: router_post_def req_1000_simps morning_simps store_simps acct_simps js_truthy_def
        findById_def save_withdrawal_def save_user_def withdrawalDoc_def debit_def mirror_entry_def
        net_1000 js_sub_def num_or_zero_def round_double_numeral)
     (simp add: store_def acct_def ascii_def)

lemma regular_simps:
  "Users store_regular acct_id = Some regular" "Withdrawals store_regular = []"
  "wallet regular = Fin 5000" "cashouts regular = Some (Fin 2500)"
  "withdrawals regular = Some [old_entry]"
  by (simp_all add: store_regular_def regular_def acct_simps)

lemma req_both_simps:
  "userId req_both = Some acct_id" "amount_number req_both = Fin 1000"
  "norm_amount req_both = Fin 1000"
  "phone req_both = Some (ascii '' 0712 345678 '')"
  "mpesaNumber req_both = Some (ascii ''0799999999'')"
  "payoutNumber req_both = ascii ''0712 345678''"
  using req_1000_simps
  by (simp_all add: req_both_def payoutNumber_def or_str_def str_truthy_def str_or_empty_def
      trim_def ascii_def is_js_space_def norm_amount_def js_isNaN_def)

lemma example_accepted_both:
  "success (fst (router_post morning store_regular req_both))"
proof -
  have c: "fields_present req_both" "meets_minimum req_both"
    by (simp_all add: fields_present_def meets_minimum_def req_both_simps js_truthy_def
        ascii_def)
  have l: "findById morning store_regular (str_or_empty (userId req_both)) = Returned (Some regular)"
    by (simp add: findById_def morning_simps regular_simps req_both_simps)
  have w: "\<not> js_lt (wallet regular) (norm_amount req_both)"
    by (simp add: regular_simps req_both_simps)
  show ?thesis
    by (simp add: post_commit [OF c example_checks(10) l w] morning_simps)
qed

section \<open>Properties\<close>

subsection \<open>C1: the effects of an accepted submission\<close>

text \<open>
  C1. Every accepted submission (a response with \<open>success\<close> true) has exactly these
  effects. One document is appended to the Withdrawal collection; it holds the gross
  amount, the net amount \<open>Math.floor(amount - amount * 0.18)\<close>, the payout number
  (\<open>phone\<close> if it is not empty, else \<open>mpesaNumber\<close>, trimmed), the status
  \<open>pending\<close> and the instant captured for the business-hours check. The user
  document of the requester is replaced by one whose embedded list, if it has one, gains an
  entry carrying the net amount (not the gross amount), whose wallet is the old wallet
  minus the gross amount, and whose cashouts counter is the old counter plus the gross
  amount, where an absent, zero or \<open>NaN\<close> counter counts as zero (\<open>user.cashouts || 0\<close>).
  Nothing else in the two collections changes. Minus and plus are the operations of the
  source on doubles; for a whole wallet below \<open>2 ^ 53\<close> and a whole amount they are exact:
  the wallet goes from \<open>w\<close> to \<open>w - a\<close> and a whole counter from \<open>c\<close> to \<open>c + a\<close>.
\<close>

theorem accepted_side_effects:
  assumes "router_post ev d req = (r, d')" and "success r"
  shows "\<exists>uid u u' payout. userId req = Some uid \<and> Users d uid = Some u \<and>
     payout =
       trim (case phone req of
               None \<Rightarrow> (case mpesaNumber req of None \<Rightarrow> [] | Some m \<Rightarrow> m)
             | Some p \<Rightarrow>
                 if p = [] then (case mpesaNumber req of None \<Rightarrow> [] | Some m \<Rightarrow> m)
                 else p) \<and>
     r = \<lparr>status = 201, success = True,
          body = Submitted (js_floor (js_sub (amount_number req)
                                             (js_mul (amount_number req) tax_rate)))\<rparr> \<and>
     d' = d\<lparr>Withdrawals := Withdrawals d @
               [\<lparr>w_id = new_id ev, w_user = uid, w_amount = amount_number req,
                 w_amountAfterTax =
                   Some (js_floor (js_sub (amount_number req)
                                          (js_mul (amount_number req) tax_rate))),
                 w_mpesaNumber = payout, w_status = ''pending'',
                 w_date = instant ev\<rparr>],
            Users := (Users d)(uid \<mapsto> u')\<rparr> \<and>
     u' = u\<lparr>withdrawals :=
              (case withdrawals u of
                 None \<Rightarrow> None
               | Some l \<Rightarrow>
                   Some (l @ [\<lparr>s_amount = js_floor (js_sub (amount_number req)
                                                  (js_mul (amount_number req) tax_rate)),
                                s_phone = payout, s_date = instant ev,
                                s_status = ''pending''\<rparr>])),
            wallet := js_sub (wallet u) (amount_number req),
            cashouts :=
              Some (js_add (case cashouts u of
                              None \<Rightarrow> Fin 0
                            | Some c \<Rightarrow> if c = NaN \<or> c = Fin 0 then Fin 0 else c)
                           (amount_number req))\<rparr> \<and>
     (\<forall>w a. wallet u = Fin (of_int w) \<and> amount_number req = Fin (of_int a) \<and> w < 2 ^ 53 \<longrightarrow>
        200 \<le> a \<and> a \<le> w \<and> wallet u' = Fin (of_int (w - a)) \<and>
        (cashouts u = None \<longrightarrow> cashouts u' = Some (Fin (of_int a))) \<and>
        (\<forall>c. cashouts u = Some (Fin (of_int c)) \<and> \<bar>c + a\<bar> < 2 ^ 53 \<longrightarrow>
           cashouts u' = Some (Fin (of_int (c + a)))))"
proof -
  from assms obtain uid u where h:
    "userId req = Some uid" "fields_present req" "meets_minimum req" "Users d uid = Some u"
    "\<not> js_lt (wallet u) (norm_amount req)"
    "r = \<lparr>status = 201, success = True, body = Submitted (net_of (norm_amount req))\<rparr>"
    "d' = d\<lparr>Withdrawals := Withdrawals d @ [withdrawalDoc ev req],
            Users := (Users d)(uid \<mapsto> debit ev req u)\<rparr>"
    by (rule accepted_D)
  from h(2) have "js_truthy (norm_amount req)" by (simp add: fields_present_def)
  note a = norm_amount_eq [OF this]
  define net where "net = js_floor (js_sub (amount_number req) (js_mul (amount_number req) tax_rate))"
  have n: "net_of (amount_number req) = net"
    by (simp add: net_def net_of_def tax_of_def)
  have z: "num_or_zero v = (case v of None \<Rightarrow> Fin 0
                            | Some c \<Rightarrow> if c = NaN \<or> c = Fin 0 then Fin 0 else c)" for v
    by (cases v) (auto simp: num_or_zero_def js_truthy_def)
  have dd: "debit ev req u =
     u\<lparr>withdrawals :=
          (case withdrawals u of
             None \<Rightarrow> None
           | Some l \<Rightarrow>
               Some (l @ [\<lparr>s_amount = net, s_phone = payoutNumber req, s_date = instant ev,
                            s_status = ''pending''\<rparr>])),
       wallet := js_sub (wallet u) (amount_number req),
       cashouts :=
         Some (js_add (case cashouts u of
                         None \<Rightarrow> Fin 0
                       | Some c \<Rightarrow> if c = NaN \<or> c = Fin 0 then Fin 0 else c)
                      (amount_number req))\<rparr>"
    by (cases "withdrawals u") (simp_all add: debit_def mirror_entry_def a n z)
  have whole: "200 \<le> a' \<and> a' \<le> w \<and> wallet (debit ev req u) = Fin (of_int (w - a')) \<and>
        (cashouts u = None \<longrightarrow> cashouts (debit ev req u) = Some (Fin (of_int a'))) \<and>
        (\<forall>c. cashouts u = Some (Fin (of_int c)) \<and> \<bar>c + a'\<bar> < 2 ^ 53 \<longrightarrow>
           cashouts (debit ev req u) = Some (Fin (of_int (c + a'))))"
    if w: "wallet u = Fin (of_int w) \<and> amount_number req = Fin (of_int a') \<and> w < 2 ^ 53"
    for w a'
  proof -
    from w have wu: "wallet u = Fin (of_int w)" and am: "norm_amount req = Fin (of_int a')"
      and wb: "w < 2 ^ 53" by (simp_all add: a)
    from h(3) am have lo: "200 \<le> a'" by (simp add: meets_minimum_def)
    from h(5) wu am have hi: "a' \<le> w" by simp
    have "\<bar>w - a'\<bar> < 2 ^ 53" "\<bar>a'\<bar> < 2 ^ 53" using lo hi wb by simp_all
    then have s: "round_double (of_int w - of_int a') = Fin (of_int (w - a'))"
      "round_double (of_int a') = Fin (of_int a')"
      using round_double_of_int [of "w - a'"] round_double_of_int [of a'] by simp_all
    have c: "round_double (of_int c + of_int a') = Fin (of_int (c + a'))"
      if "\<bar>c + a'\<bar> < 2 ^ 53" for c
      using round_double_of_int [of "c + a'"] that by simp
    show ?thesis
      using lo hi s c by (auto simp: debit_simps wu am js_sub_def num_or_zero_def js_truthy_def)
  qed
  have p: "payoutNumber req =
       trim (case phone req of
               None \<Rightarrow> (case mpesaNumber req of None \<Rightarrow> [] | Some m \<Rightarrow> m)
             | Some p \<Rightarrow>
                 if p = [] then (case mpesaNumber req of None \<Rightarrow> [] | Some m \<Rightarrow> m)
                 else p)"
    by (simp add: payoutNumber_def or_str_def str_truthy_def str_or_empty_def
        split: option.split)
  show ?thesis
    apply (rule exI [of _ uid], rule exI [of _ u], rule exI [of _ "debit ev req u"],
        rule exI [of _ "payoutNumber req"])
    apply (intro conjI)
    subgoal by (rule h(1))
    subgoal by (rule h(4))
    subgoal by (rule p)
    subgoal using h(6) by (simp add: a n net_def)
    subgoal using h(7) h(1) by (simp add: withdrawalDoc_def a n net_def str_or_empty_def)
    subgoal by (rule dd [unfolded net_def])
    subgoal using whole by blast
    done
qed

text \<open>
  An account with 5000 in its wallet, 2500 cashed out so far and one earlier entry asks for
  1000, giving both \<open>phone\<close> and \<open>mpesaNumber\<close>: the wallet becomes 4000, the counter
  3500, the list gains an entry of 820 for the trimmed \<open>phone\<close>, and the new withdrawal
  document holds 1000, 820 and the same number.
\<close>

theorem accepted_side_effects_witness:
  "success (fst (router_post morning store_regular req_both)) \<and>
   Users store_regular acct_id = Some regular \<and>
   wallet regular = Fin 5000 \<and> cashouts regular = Some (Fin 2500) \<and>
   withdrawals regular = Some [old_entry] \<and>
   amount_number req_both = Fin 1000 \<and>
   phone req_both = Some (ascii '' 0712 345678 '') \<and>
   mpesaNumber req_both = Some (ascii ''0799999999'') \<and>
   router_post morning store_regular req_both =
     (\<lparr>status = 201, success = True, body = Submitted (Fin 820)\<rparr>,
      \<lparr>Users = [acct_id \<mapsto>
          regular\<lparr>withdrawals :=
                    Some [old_entry,
                          \<lparr>s_amount = Fin 820, s_phone = ascii ''0712 345678'',
                            s_date = 1736924400000, s_status = ''pending''\<rparr>],
                  wallet := Fin 4000, cashouts := Some (Fin 3500)\<rparr>],
       Withdrawals =
         [\<lparr>w_id = ascii ''6787a1b2c3d4e5f601234567'', w_user = acct_id,
           w_amount = Fin 1000, w_amountAfterTax = Some (Fin 820),
           w_mpesaNumber = ascii ''0712 345678'', w_status = ''pending'',
           w_date = 1736924400000\<rparr>]\<rparr>)"
proof -
  note s = example_accepted_both
  from accepted_side_effects [OF prod.collapse [symmetric] s]
  obtain uid u u' payout where h: "userId req_both = Some uid" "Users store_regular uid = Some u"
    "payout =
       trim (case phone req_both of
               None \<Rightarrow> (case mpesaNumber req_both of None \<Rightarrow> [] | Some m \<Rightarrow> m)
             | Some p \<Rightarrow>
                 if p = [] then (case mpesaNumber req_both of None \<Rightarrow> [] | Some m \<Rightarrow> m)
                 else p)"
    "fst (router_post morning store_regular req_both) =
       \<lparr>status = 201, success = True,
        body = Submitted (js_floor (js_sub (amount_number req_both)
                                           (js_mul (amount_number req_both) tax_rate)))\<rparr>"
    "snd (router_post morning store_regular req_both) =
       store_regular\<lparr>Withdrawals := Withdrawals store_regular @
               [\<lparr>w_id = new_id morning, w_user = uid, w_amount = amount_number req_both,
                 w_amountAfterTax =
                   Some (js_floor (js_sub (amount_number req_both)
                                          (js_mul (amount_number req_both) tax_rate))),
                 w_mpesaNumber = payout, w_status = ''pending'',
                 w_date = instant morning\<rparr>],
            Users := (Users store_regular)(uid \<mapsto> u')\<rparr>"
    "u' = u\<lparr>withdrawals :=
              (case withdrawals u of
                 None \<Rightarrow> None
               | Some l \<Rightarrow>
                   Some (l @ [\<lparr>s_amount = js_floor (js_sub (amount_number req_both)
                                                  (js_mul (amount_number req_both) tax_rate)),
                                s_phone = payout, s_date = instant morning,
                                s_status = ''pending''\<rparr>])),
            wallet := js_sub (wallet u) (amount_number req_both),
            cashouts :=
              Some (js_add (case cashouts u of
                              None \<Rightarrow> Fin 0
                            | Some c \<Rightarrow> if c = NaN \<or> c = Fin 0 then Fin 0 else c)
                           (amount_number req_both))\<rparr>"
    by blast
  from h(1) have uid: "uid = acct_id" by (simp add: req_both_simps)
  with h(2) have u: "u = regular" by (simp add: regular_simps)
  have po: "payout = ascii ''0712 345678''"
    unfolding h(3)
    by (simp add: req_both_simps) (simp add: trim_def ascii_def is_js_space_def)
  have net: "js_floor (js_sub (Fin 1000) (js_mul (Fin 1000) tax_rate)) = Fin 820"
    using net_1000 by (simp add: net_of_def tax_of_def)
  have u': "u' = regular\<lparr>withdrawals :=
                    Some [old_entry,
                          \<lparr>s_amount = Fin 820, s_phone = ascii ''0712 345678'',
                            s_date = 1736924400000, s_status = ''pending''\<rparr>],
                  wallet := Fin 4000, cashouts := Some (Fin 3500)\<rparr>"
  proof -
    have "js_sub (Fin 5000) (Fin 1000) = Fin 4000" "js_add (Fin 2500) (Fin 1000) = Fin 3500"
      by (simp_all add: js_sub_def round_double_numeral)
    then show ?thesis
      unfolding h(6) u
      by (simp add: regular_simps req_both_simps morning_simps net po)
  qed
  have r: "fst (router_post morning store_regular req_both) =
      \<lparr>status = 201, success = True, body = Submitted (Fin 820)\<rparr>"
    unfolding h(4) by (simp add: req_both_simps net)
  have d: "snd (router_post morning store_regular req_both) =
      \<lparr>Users = [acct_id \<mapsto> u'],
       Withdrawals =
         [\<lparr>w_id = ascii ''6787a1b2c3d4e5f601234567'', w_user = acct_id,
           w_amount = Fin 1000, w_amountAfterTax = Some (Fin 820),
           w_mpesaNumber = ascii ''0712 345678'', w_status = ''pending'',
           w_date = 1736924400000\<rparr>]\<rparr>"
    unfolding h(5) uid
    by (simp add: req_both_simps morning_simps net store_regular_def po)
  have "router_post morning store_regular req_both =
      (fst (router_post morning store_regular req_both),
       snd (router_post morning store_regular req_both))"
    by simp
  then show ?thesis
    unfolding r d u' using s by (simp add: regular_simps req_both_simps)
qed

subsection \<open>C2: tax and net amount\<close>

text \<open>
  C2. For every accepted submission the net amount in the response and in the new
  withdrawal document is \<open>Math.floor(amount - amount * 0.18)\<close>, computed on doubles; the
  tax is \<open>amount * 0.18\<close>, where \<open>0.18\<close> is the double nearest to 18/100. For the amount
  1000 the tax is exactly 180 and the net amount exactly 820; for the amount 201 the net
  amount is exactly 164. For every non-negative double the net amount is a whole number,
  at least zero and at most the amount.
\<close>

theorem tax_and_net:
  "(router_post ev d req = (r, d') \<and> success r \<longrightarrow>
      body r = Submitted (js_floor (js_sub (amount_number req)
                                      (js_mul (amount_number req) tax_rate))) \<and>
      w_amountAfterTax (last (Withdrawals d')) =
        Some (js_floor (js_sub (amount_number req) (js_mul (amount_number req) tax_rate)))) \<and>
   tax_rate = Fin (3242591731706757 / 2 ^ 54) \<and>
   js_mul (Fin 1000) tax_rate = Fin 180 \<and>
   js_floor (js_sub (Fin 1000) (js_mul (Fin 1000) tax_rate)) = Fin 820 \<and>
   js_floor (js_sub (Fin 201) (js_mul (Fin 201) tax_rate)) = Fin 164 \<and>
   (is_double a \<and> 0 \<le> a \<longrightarrow>
      (\<exists>n. js_floor (js_sub (Fin a) (js_mul (Fin a) tax_rate)) = Fin (of_int n) \<and>
           0 \<le> n \<and> of_int n \<le> a))"
proof -
  have "body r = Submitted (net_of (amount_number req)) \<and>
        w_amountAfterTax (last (Withdrawals d')) = Some (net_of (amount_number req))"
    if a: "router_post ev d req = (r, d')" "success r"
  proof -
    from a obtain uid u where h: "fields_present req"
      "r = \<lparr>status = 201, success = True, body = Submitted (net_of (norm_amount req))\<rparr>"
      "d' = d\<lparr>Withdrawals := Withdrawals d @ [withdrawalDoc ev req],
              Users := (Users d)(uid \<mapsto> debit ev req u)\<rparr>"
      by (rule accepted_D)
    from h(1) have "norm_amount req = amount_number req"
      by (intro norm_amount_eq) (simp add: fields_present_def)
    with h(2,3) show ?thesis by (simp add: withdrawalDoc_def)
  qed
  moreover note tax_rate_value
  moreover have "js_mul (Fin 1000) tax_rate = Fin 180"
    using tax_1000 by (simp add: tax_of_def)
  moreover have "js_floor (js_sub (Fin 1000) (js_mul (Fin 1000) tax_rate)) = Fin 820"
    using net_1000 by (simp add: net_of_def tax_of_def)
  moreover have "js_floor (js_sub (Fin 201) (js_mul (Fin 201) tax_rate)) = Fin 164"
    using net_201 by (simp add: net_of_def tax_of_def)
  moreover have "\<exists>n. js_floor (js_sub (Fin a) (js_mul (Fin a) tax_rate)) = Fin (of_int n) \<and>
      0 \<le> n \<and> of_int n \<le> a" if "is_double a \<and> 0 \<le> a"
    using net_whole [of a] that by (simp add: net_of_def tax_of_def)
  ultimately show ?thesis
    by (simp add: net_of_def tax_of_def)
qed

theorem tax_and_net_witness:
  "success (fst (router_post morning store req_1000)) \<and>
   amount_number req_1000 = Fin 1000 \<and>
   body (fst (router_post morning store req_1000)) = Submitted (Fin 820) \<and>
   w_amountAfterTax (last (Withdrawals (snd (router_post morning store req_1000)))) =
     Some (Fin 820) \<and>
   is_double 1000 \<and>
   (\<exists>n. js_floor (js_sub (Fin 1000) (js_mul (Fin 1000) tax_rate)) = Fin (of_int n) \<and>
        0 \<le> n \<and> of_int n \<le> (1000::rat))"
proof -
  have s: "success (fst (router_post morning store req_1000))"
    by (simp add: example_accepted)
  have i: "is_double 1000"
    by (simp add: is_double_def round_double_numeral)
  have "router_post morning store req_1000 =
      (fst (router_post morning store req_1000), snd (router_post morning store req_1000))"
    by simp
  with s tax_and_net [of morning store req_1000 "fst (router_post morning store req_1000)"
      "snd (router_post morning store req_1000)"]
  have "body (fst (router_post morning store req_1000)) =
      Submitted (js_floor (js_sub (amount_number req_1000)
                                  (js_mul (amount_number req_1000) tax_rate))) \<and>
    w_amountAfterTax (last (Withdrawals (snd (router_post morning store req_1000)))) =
      Some (js_floor (js_sub (amount_number req_1000) (js_mul (amount_number req_1000) tax_rate)))"
    and "js_floor (js_sub (Fin 1000) (js_mul (Fin 1000) tax_rate)) = Fin 820"
    by blast+
  moreover have "\<exists>n. js_floor (js_sub (Fin 1000) (js_mul (Fin 1000) tax_rate)) = Fin (of_int n) \<and>
        0 \<le> n \<and> of_int n \<le> (1000::rat)"
  proof -
    have z: "is_double 1000 \<and> (0::rat) \<le> 1000" using i by simp
    from tax_and_net [of morning store req_1000 "fst (router_post morning store req_1000)"
      "snd (router_post morning store req_1000)" 1000]
    have "is_double 1000 \<and> (0::rat) \<le> 1000 \<longrightarrow>
      (\<exists>n. js_floor (js_sub (Fin 1000) (js_mul (Fin 1000) tax_rate)) = Fin (of_int n) \<and>
        0 \<le> n \<and> of_int n \<le> (1000::rat))"
      by blast
    then show ?thesis using z by (rule mp)
  qed
  ultimately show ?thesis using s i by (simp add: req_1000_simps)
qed

subsection \<open>C3: insufficient balance\<close>

text \<open>
  C3, as amended. For every submission that passes the required-fields, minimum-amount
  and business-hours checks and whose account lookup returns an account with a wallet
  balance strictly less than the requested gross amount, the response is
  \<open>InsufficientBalance\<close> and the collections are unchanged. And for every submission,
  whatever its other fields and the hour, if the account exists with a wallet balance
  strictly less than the requested amount then nothing is written: the wallet, the
  cashouts counter and the Withdrawal collection are as before.
\<close>

theorem insufficient_balance:
  "(fields_present req \<and> meets_minimum req \<and> within_hours ev \<and>
    findById ev d (str_or_empty (userId req)) = Returned (Some u) \<and>
    js_lt (wallet u) (norm_amount req) \<longrightarrow>
      router_post ev d req = (InsufficientBalance, d)) \<and>
   (Users d (str_or_empty (userId req)) = Some u \<and> js_lt (wallet u) (norm_amount req) \<longrightarrow>
      snd (router_post ev d req) = d)"
proof (intro conjI impI)
  assume "fields_present req \<and> meets_minimum req \<and> within_hours ev \<and>
    findById ev d (str_or_empty (userId req)) = Returned (Some u) \<and>
    js_lt (wallet u) (norm_amount req)"
  then show "router_post ev d req = (InsufficientBalance, d)"
    by (simp add: post_lookup)
next
  assume a: "Users d (str_or_empty (userId req)) = Some u \<and> js_lt (wallet u) (norm_amount req)"
  show "snd (router_post ev d req) = d"
  proof (cases "fields_present req \<and> meets_minimum req \<and> within_hours ev")
    case False
    then show ?thesis by (rule post_early)
  next
    case True
    then show ?thesis
      using a by (simp add: post_lookup findById_def)
  qed
qed

theorem insufficient_balance_witness:
  "fields_present req_9000 \<and> meets_minimum req_9000 \<and> within_hours morning \<and>
   findById morning store (str_or_empty (userId req_9000)) = Returned (Some acct) \<and>
   js_lt (wallet acct) (norm_amount req_9000) \<and>
   router_post morning store req_9000 = (InsufficientBalance, store) \<and>
   Users store (str_or_empty (userId req_9000)) = Some acct \<and>
   snd (router_post evening store req_9000) = store"
  using insufficient_balance [of req_9000 morning store acct]
    insufficient_balance [of req_9000 evening store acct]
  by (simp add: example_checks example_lookups acct_simps req_simps str_or_empty_def)

text \<open>
  Without the three earlier checks the statement fails: in the evening a request for 9000
  against a wallet of 5000 is answered with \<open>OutsideBusinessHours\<close>.
\<close>

theorem insufficient_balance_counterexample:
  "Users store (str_or_empty (userId req_9000)) = Some acct \<and>
   js_lt (wallet acct) (norm_amount req_9000) \<and>
   fst (router_post evening store req_9000) = OutsideBusinessHours \<and>
   OutsideBusinessHours \<noteq> InsufficientBalance"
  using replies_distinct
  by (simp add: example_lookups acct_simps req_simps post_outside example_checks str_or_empty_def)

subsection \<open>C4: below the minimum\<close>

text \<open>
  C4, as amended. For every submission whose user identifier and payout number are
  present and whose amount, after numeric coercion (a non-numeric input is treated as
  zero), is not zero and strictly less than 200, the response is \<open>BelowMinimum\<close>,
  whatever the hour and the collections. An amount that is zero after coercion, a
  non-numeric amount in particular, is answered with \<open>MissingFields\<close> by the
  required-fields check, which comes first: not with \<open>BelowMinimum\<close>, and not with a
  type error.
\<close>

theorem below_minimum:
  "(str_truthy (userId req) \<and> payoutNumber req \<noteq> [] \<and> norm_amount req \<noteq> Fin 0 \<and>
    js_lt (norm_amount req) (Fin 200) \<longrightarrow> router_post ev d req = (BelowMinimum, d)) \<and>
   (js_isNaN (amount_number req) \<longrightarrow> norm_amount req = Fin 0) \<and>
   (norm_amount req = Fin 0 \<longrightarrow> router_post ev d req = (MissingFields, d))"
  by (simp add: router_post_def js_truthy_def norm_amount_def)

theorem below_minimum_witness:
  "str_truthy (userId req_100) \<and> payoutNumber req_100 \<noteq> [] \<and>
   norm_amount req_100 = Fin 100 \<and> js_lt (norm_amount req_100) (Fin 200) \<and>
   router_post evening store req_100 = (BelowMinimum, store) \<and>
   js_isNaN (amount_number req_nan) \<and> norm_amount req_nan = Fin 0 \<and>
   router_post morning store req_nan = (MissingFields, store)"
  using below_minimum [of req_100 evening store] below_minimum [of req_nan morning store]
  by (simp add: req_simps ascii_def js_isNaN_def)

text \<open>
  A non-numeric amount is below 200 after coercion, and yet the response is
  \<open>MissingFields\<close>.
\<close>

theorem below_minimum_counterexample:
  "js_lt (norm_amount req_nan) (Fin 200) \<and>
   fst (router_post morning store req_nan) = MissingFields \<and>
   MissingFields \<noteq> BelowMinimum"
  using replies_distinct
  by (simp add: req_simps post_missing example_checks)

subsection \<open>C5: the order of the checks\<close>

text \<open>
  C5. The five checks are made in the order (1) required fields, (2) minimum amount,
  (3) business hours, (4) the account exists, (5) the wallet covers the amount. The first
  check that fails gives the response, the five responses are pairwise distinct, and in
  each of these cases the collections are unchanged. If a submission changes the
  collections at all, then all five checks have passed.
\<close>

theorem validation_order:
  "(\<not> fields_present req \<longrightarrow> router_post ev d req = (MissingFields, d)) \<and>
   (fields_present req \<and> \<not> meets_minimum req \<longrightarrow> router_post ev d req = (BelowMinimum, d)) \<and>
   (fields_present req \<and> meets_minimum req \<and> \<not> within_hours ev \<longrightarrow>
      router_post ev d req = (OutsideBusinessHours, d)) \<and>
   (fields_present req \<and> meets_minimum req \<and> within_hours ev \<and>
    findById ev d (str_or_empty (userId req)) = Returned None \<longrightarrow>
      router_post ev d req = (AccountNotFound, d)) \<and>
   (\<forall>u. fields_present req \<and> meets_minimum req \<and> within_hours ev \<and>
        findById ev d (str_or_empty (userId req)) = Returned (Some u) \<and>
        js_lt (wallet u) (norm_amount req) \<longrightarrow>
      router_post ev d req = (InsufficientBalance, d)) \<and>
   distinct [MissingFields, BelowMinimum, OutsideBusinessHours, AccountNotFound,
     InsufficientBalance] \<and>
   (snd (router_post ev d req) \<noteq> d \<longrightarrow>
      fields_present req \<and> meets_minimum req \<and> within_hours ev \<and>
      (\<exists>u. findById ev d (str_or_empty (userId req)) = Returned (Some u) \<and>
           \<not> js_lt (wallet u) (norm_amount req)))"
proof -
  have mut: "fields_present req \<and> meets_minimum req \<and> within_hours ev \<and>
      (\<exists>u. findById ev d (str_or_empty (userId req)) = Returned (Some u) \<and>
           \<not> js_lt (wallet u) (norm_amount req))"
    if ne: "snd (router_post ev d req) \<noteq> d"
  proof -
    have c: "fields_present req \<and> meets_minimum req \<and> within_hours ev"
      using ne post_early(1) [of req ev d] by blast
    then have l: "router_post ev d req =
     (case findById ev d (str_or_empty (userId req)) of
        Threw \<Rightarrow> (InternalError, d)
      | Returned None \<Rightarrow> (AccountNotFound, d)
      | Returned (Some u) \<Rightarrow>
          if js_lt (wallet u) (norm_amount req) then (InsufficientBalance, d)
          else
            (case save_withdrawal ev d (withdrawalDoc ev req) of
               Threw \<Rightarrow> (InternalError, d)
             | Returned d1 \<Rightarrow>
                 (case save_user ev d1 (str_or_empty (userId req)) (debit ev req u) of
                    Threw \<Rightarrow> (InternalError, d1)
                  | Returned d2 \<Rightarrow>
                      (\<lparr>status = 201, success = True,
                        body = Submitted (net_of (norm_amount req))\<rparr>, d2))))"
      by (simp add: post_lookup)
    have "\<exists>u. findById ev d (str_or_empty (userId req)) = Returned (Some u) \<and>
           \<not> js_lt (wallet u) (norm_amount req)"
      using ne unfolding l
      by (cases "findById ev d (str_or_empty (userId req))")
         (auto split: option.splits if_splits)
    with c show ?thesis by simp
  qed
  have dist: "distinct [MissingFields, BelowMinimum, OutsideBusinessHours, AccountNotFound,
     InsufficientBalance]"
    using replies_distinct by simp
  have nf: "router_post ev d req = (AccountNotFound, d)"
    if "fields_present req \<and> meets_minimum req \<and> within_hours ev \<and>
        findById ev d (str_or_empty (userId req)) = Returned None"
    using that by (simp add: post_lookup)
  have ins: "router_post ev d req = (InsufficientBalance, d)"
    if "fields_present req \<and> meets_minimum req \<and> within_hours ev \<and>
        findById ev d (str_or_empty (userId req)) = Returned (Some u) \<and>
        js_lt (wallet u) (norm_amount req)" for u
    using that by (simp add: post_lookup)
  show ?thesis
    using post_missing [of req ev d] post_below [of req ev d] post_outside [of req ev d]
      nf ins dist mut
    by (intro conjI impI allI) blast+
qed

theorem validation_order_witness:
  "router_post morning store req_nan = (MissingFields, store) \<and>
   router_post morning store req_100 = (BelowMinimum, store) \<and>
   router_post evening store req_1000 = (OutsideBusinessHours, store) \<and>
   router_post morning store req_stranger = (AccountNotFound, store) \<and>
   router_post morning store req_9000 = (InsufficientBalance, store) \<and>
   snd (router_post morning store req_1000) \<noteq> store \<and>
   fields_present req_1000 \<and> meets_minimum req_1000 \<and> within_hours morning \<and>
   (\<exists>u. findById morning store (str_or_empty (userId req_1000)) = Returned (Some u) \<and>
        \<not> js_lt (wallet u) (norm_amount req_1000))"
proof -
  have ne: "snd (router_post morning store req_1000) \<noteq> store"
    by (simp add: example_accepted) (simp add: store_def)
  show ?thesis
    using ne validation_order [of req_nan morning store] validation_order [of req_100 morning store]
      validation_order [of req_1000 evening store] validation_order [of req_stranger morning store]
      validation_order [of req_9000 morning store] validation_order [of req_1000 morning store]
    by (simp add: example_checks example_lookups acct_simps req_simps req_1000_simps
        str_or_empty_def)
qed

subsection \<open>C6: business hours\<close>

text \<open>
  C6, as amended. For every submission that passes the required-fields and
  minimum-amount checks, the response is \<open>OutsideBusinessHours\<close> exactly when the hour
  of the current instant at UTC+3 is below 9 or at least 17; for every submission, that
  response is given only at such an hour. The hour is the hour component of the instant
  shifted by three hours, and the response does not depend on the time zone of the server
  process. At hour 9 no submission gets this response; at hour 17 every submission that
  passes the two earlier checks gets it.
\<close>

theorem business_hours:
  "(fields_present req \<and> meets_minimum req \<longrightarrow>
      (fst (router_post ev d req) = OutsideBusinessHours \<longleftrightarrow>
       nairobi_hour (instant ev) < 9 \<or> 17 \<le> nairobi_hour (instant ev))) \<and>
   (fst (router_post ev d req) = OutsideBusinessHours \<longrightarrow>
      nairobi_hour (instant ev) < 9 \<or> 17 \<le> nairobi_hour (instant ev)) \<and>
   nairobi_hour (instant ev) = ((instant ev + 3 * 3600000) div 3600000) mod 24 \<and>
   router_post (ev\<lparr>process_utc_offset := z\<rparr>) d req = router_post ev d req \<and>
   (nairobi_hour (instant ev) = 9 \<longrightarrow> fst (router_post ev d req) \<noteq> OutsideBusinessHours) \<and>
   (fields_present req \<and> meets_minimum req \<and> nairobi_hour (instant ev) = 17 \<longrightarrow>
      fst (router_post ev d req) = OutsideBusinessHours)"
proof -
  have only: "nairobi_hour (instant ev) < 9 \<or> 17 \<le> nairobi_hour (instant ev)"
    if o: "fst (router_post ev d req) = OutsideBusinessHours"
  proof (rule ccontr)
    assume "\<not> (nairobi_hour (instant ev) < 9 \<or> 17 \<le> nairobi_hour (instant ev))"
    then have h: "within_hours ev" by (simp add: within_hours_def)
    obtain r d' where rd: "router_post ev d req = (r, d')" by (cases "router_post ev d req")
    have "r \<noteq> OutsideBusinessHours"
    proof (cases "fields_present req")
      case False
      with rd replies_distinct show ?thesis by (auto simp: post_missing)
    next
      case f: True
      show ?thesis
      proof (cases "meets_minimum req")
        case False
        with f rd replies_distinct show ?thesis by (auto simp: post_below)
      next
        case True
        have "r \<in> {InternalError, AccountNotFound, InsufficientBalance} \<or> success r"
          using rd unfolding post_lookup [OF f True h]
          by (auto split: outcome.splits option.splits if_splits)
        then show ?thesis using replies_distinct by auto
      qed
    qed
    with o rd show False by simp
  qed
  have "(instant ev + 3 * 3600000) div 3600000 = 3 + instant ev div 3600000"
    by (rule div_mult_self1) simp
  then have hr: "nairobi_hour (instant ev) = ((instant ev + 3 * 3600000) div 3600000) mod 24"
    by (simp only: nairobi_hour_def add.commute)
  have indep: "router_post (ev\<lparr>process_utc_offset := z\<rparr>) d req = router_post ev d req"
    by (simp add: router_post_def offset_unread offset_unread_debit
        split: outcome.split option.split)
  have fwd: "fst (router_post ev d req) = OutsideBusinessHours"
    if "fields_present req" "meets_minimum req"
       "nairobi_hour (instant ev) < 9 \<or> 17 \<le> nairobi_hour (instant ev)"
    using that by (simp add: post_outside within_hours_def)
  have nine: "fst (router_post ev d req) \<noteq> OutsideBusinessHours"
    if "nairobi_hour (instant ev) = 9"
    using only that by auto
  have sev: "fst (router_post ev d req) = OutsideBusinessHours"
    if "fields_present req \<and> meets_minimum req \<and> nairobi_hour (instant ev) = 17"
    using fwd that by simp
  have eq: "fst (router_post ev d req) = OutsideBusinessHours \<longleftrightarrow>
       nairobi_hour (instant ev) < 9 \<or> 17 \<le> nairobi_hour (instant ev)"
    if "fields_present req \<and> meets_minimum req"
    using only fwd that by blast
  show ?thesis
    using eq only hr indep nine sev by (intro conjI impI) blast+
qed

theorem business_hours_witness:
  "fst (router_post evening store req_1000) = OutsideBusinessHours \<and>
   nairobi_hour (instant evening) = 20 \<and>
   fst (router_post morning store req_1000) \<noteq> OutsideBusinessHours \<and>
   nairobi_hour (instant morning) = 10 \<and>
   fst (router_post (morning\<lparr>instant := 1736920800000\<rparr>) store req_1000) \<noteq> OutsideBusinessHours \<and>
   nairobi_hour 1736920800000 = 9 \<and>
   fst (router_post (morning\<lparr>instant := 1736949600000\<rparr>) store req_1000) = OutsideBusinessHours \<and>
   nairobi_hour 1736949600000 = 17"
  using business_hours [of req_1000 evening store] business_hours [of req_1000 morning store]
    business_hours [of req_1000 "morning\<lparr>instant := 1736920800000\<rparr>" store]
    business_hours [of req_1000 "morning\<lparr>instant := 1736949600000\<rparr>" store]
  by (simp add: example_checks evening_def morning_simps nairobi_hour_def)

text \<open>
  Without the two earlier checks the statement fails: at 20:00 a request for 100 is
  answered with \<open>BelowMinimum\<close>.
\<close>

theorem business_hours_counterexample:
  "(nairobi_hour (instant evening) < 9 \<or> 17 \<le> nairobi_hour (instant evening)) \<and>
   fst (router_post evening store req_100) = BelowMinimum \<and>
   BelowMinimum \<noteq> OutsideBusinessHours"
  using replies_distinct
  by (simp add: post_below example_checks evening_def morning_simps nairobi_hour_def)

subsection \<open>C7: the wallet never goes negative\<close>

text \<open>
  C7. For every account whose wallet balance is non-negative before a submission, the
  account is still there afterwards and its wallet balance is still non-negative,
  whatever the outcome of the submission (rejected, accepted, or ended by a failing store
  call): the debit happens only after the check that the wallet is not less than the
  gross amount, and the rounded difference of two doubles is not below zero when the exact
  difference is not.
\<close>

theorem wallet_stays_nonneg:
  assumes "Users d k = Some a" and "nonneg_balance (wallet a)"
    and "router_post ev d req = (r, d')"
  shows "\<exists>a'. Users d' k = Some a' \<and> nonneg_balance (wallet a')"
  using assms(3)
proof (cases rule: post_cases)
  case rejected
  with assms(1,2) show ?thesis by simp
next
  case half
  with assms(1,2) show ?thesis by simp
next
  case accepted
  with assms(3) obtain uid u where h: "meets_minimum req" "Users d uid = Some u"
    "\<not> js_lt (wallet u) (norm_amount req)"
    "d' = d\<lparr>Withdrawals := Withdrawals d @ [withdrawalDoc ev req],
            Users := (Users d)(uid \<mapsto> debit ev req u)\<rparr>"
    by (rule accepted_D)
  show ?thesis
  proof (cases "k = uid")
    case True
    with assms(1,2) h(2) have "nonneg_balance (wallet u)" by simp
    then have "nonneg_balance (wallet (debit ev req u))"
      using h(3,1) by (rule debit_keeps_nonneg)
    with True h(4) show ?thesis by simp
  next
    case False
    with assms(1,2) h(4) show ?thesis by simp
  qed
qed

theorem wallet_stays_nonneg_witness:
  "Users store acct_id = Some acct \<and> nonneg_balance (wallet acct) \<and>
   (\<exists>a'. Users (snd (router_post morning store req_1000)) acct_id = Some a' \<and>
         nonneg_balance (wallet a'))"
proof -
  have n: "nonneg_balance (wallet acct)"
    by (simp add: acct_simps nonneg_balance_def is_double_def round_double_numeral)
  show ?thesis
    using n wallet_stays_nonneg [OF example_lookups(1) n prod.collapse [symmetric]]
    by (simp add: example_lookups)
qed

subsection \<open>C8: the history of an account without withdrawal documents\<close>



subsection \<open>C9: a history request without an identifier\<close>

text \<open>
  C9. A history request without an account identifier in the query string (the parameter
  absent, or present and empty) gets the 400 response "Missing userId in query", whatever
  the two collections hold and whichever store call would fail: neither store is read. The
  response is neither an empty history nor the 404 of a missing account.
\<close>

theorem get_without_userId:
  "router_get ev d None = MissingUserId \<and>
   router_get ev d (Some []) = MissingUserId \<and>
   status MissingUserId = 400 \<and>
   MissingUserId \<noteq> AccountNotFound \<and>
   MissingUserId \<noteq> \<lparr>status = 200, success = True, body = EmbeddedHistory []\<rparr> \<and>
   MissingUserId \<noteq> \<lparr>status = 200, success = True, body = MappedHistory []\<rparr>"
  by (simp add: router_get_def str_truthy_def MissingUserId_def AccountNotFound_def failure_def)

subsection \<open>C10: what an accepted submission leaves alone\<close>

text \<open>
  C10. For every accepted submission, the user document of the requester after the
  request is the one before it with at most the wallet, the cashouts counter and the
  embedded list changed: every other field (the extension part of the record) is as
  before. A document without an embedded list still has none. Every other user document
  is unchanged.
\<close>

theorem accepted_frame:
  assumes "router_post ev d req = (r, d')" and "success r"
  shows "\<exists>uid u u'. userId req = Some uid \<and> Users d uid = Some u \<and> Users d' uid = Some u' \<and>
     u' = u\<lparr>wallet := wallet u', cashouts := cashouts u', withdrawals := withdrawals u'\<rparr> \<and>
     user.more u' = user.more u \<and>
     (withdrawals u = None \<longrightarrow> withdrawals u' = None) \<and>
     (\<forall>k. k \<noteq> uid \<longrightarrow> Users d' k = Users d k)"
proof -
  from assms obtain uid u where h: "userId req = Some uid" "Users d uid = Some u"
    "d' = d\<lparr>Withdrawals := Withdrawals d @ [withdrawalDoc ev req],
            Users := (Users d)(uid \<mapsto> debit ev req u)\<rparr>"
    by (rule accepted_D)
  have "debit ev req u = u\<lparr>wallet := wallet (debit ev req u),
      cashouts := cashouts (debit ev req u), withdrawals := withdrawals (debit ev req u)\<rparr>"
    by (cases "withdrawals u") (simp_all add: debit_def)
  with h debit_simps(3,4) [of ev req u] show ?thesis
    by (intro exI [of _ uid] exI [of _ u] exI [of _ "debit ev req u"]) simp
qed

theorem accepted_frame_witness:
  "success (fst (router_post morning store_veteran req_1000)) \<and>
   (\<exists>uid u u'. userId req_1000 = Some uid \<and> Users store_veteran uid = Some u \<and>
     Users (snd (router_post morning store_veteran req_1000)) uid = Some u' \<and>
     u' = u\<lparr>wallet := wallet u', cashouts := cashouts u', withdrawals := withdrawals u'\<rparr> \<and>
     user.more u' = user.more u \<and>
     (withdrawals u = None \<longrightarrow> withdrawals u' = None) \<and>
     (\<forall>k. k \<noteq> uid \<longrightarrow> Users (snd (router_post morning store_veteran req_1000)) k = Users store_veteran k)) \<and>
   withdrawals veteran = None"
proof -
  have l: "findById morning store_veteran (str_or_empty (userId req_1000)) = Returned (Some veteran)"
    by (simp add: findById_def morning_simps store_veteran_def req_1000_simps)
  have w: "\<not> js_lt (wallet veteran) (norm_amount req_1000)"
    by (simp add: veteran_def acct_simps req_1000_simps)
  have s: "success (fst (router_post morning store_veteran req_1000))"
    by (simp add: post_commit [OF example_checks(1,6,10) l w] morning_simps)
  show ?thesis
    using s accepted_frame [OF prod.collapse [symmetric] s]
    by (simp add: veteran_def)
qed

end
